theory Spec2Isabelle
  imports Complex_Main "HOL-Library.Sublist" "HOL-Library.Monad_Syntax"
    "HOL-Library.Code_Target_Nat"
begin

section \<open>Strings\<close>

text \<open>
  A JavaScript string is a sequence of UTF-16 code units. The model has the code units
  below \<open>U+0100\<close>, Basic Latin and the Latin-1 Supplement, as \<^typ>\<open>char\<close>; a string
  with other code units is outside the model. On these code units \<open>toLowerCase\<close> works
  one code unit at a time: it adds 32 to \<open>A\<close> to \<open>Z\<close> (\<open>U+0041\<close> to \<open>U+005A\<close>) and to
  the capital letters \<open>U+00C0\<close> to \<open>U+00DE\<close>, the multiplication sign \<open>U+00D7\<close>
  excepted, and keeps every other code unit: the micro sign, the sharp s and the y with
  diaeresis have no lower-case form of their own below \<open>U+0100\<close>.
\<close>

definition lower_char :: "char \<Rightarrow> char" where
  "lower_char c =
     (let n = (of_char c :: nat)
      in if (65 \<le> n \<and> n \<le> 90) \<or> (192 \<le> n \<and> n \<le> 222 \<and> n \<noteq> 215) then char_of (n + 32)
         else c)"

definition toLowerCase :: "string \<Rightarrow> string" where
  "toLowerCase s = map lower_char s"

text \<open>\<open>s.includes(q)\<close>: \<open>q\<close> occurs in \<open>s\<close> as a contiguous run of characters.\<close>

fun String_includes :: "string \<Rightarrow> string \<Rightarrow> bool" where
  "String_includes [] q = (q = [])"
| "String_includes (c # cs) q = (prefix q (c # cs) \<or> String_includes cs q)"

section \<open>Matches and the filters\<close>

text \<open>The interface \<open>Match\<close>, with its nested objects.\<close>

record named =
  name :: string

record team =
  team_id :: int
  team_name :: string
  acronym :: "string option"
  location :: "string option"

record opponent_entry =
  opponent :: team

record Match =
  match_id :: int
  match_name :: string
  scheduled_at :: string
  status :: string
  videogame :: named
  league :: named
  tournament :: named
  opponents :: "opponent_entry list"

text \<open>
  The four filters as functions of the contents of the array of matches: what
  \<open>Array.prototype.filter\<close> puts in the array it returns is \<^const>\<open>filter\<close> of the
  contents of the array it reads. The session below uses the filters in this form.
\<close>

definition filterByGame :: "Match list \<Rightarrow> string \<Rightarrow> Match list" where
  "filterByGame matches game =
     filter (\<lambda>m. toLowerCase (name (videogame m)) = toLowerCase game) matches"

definition filterByLeague :: "Match list \<Rightarrow> string \<Rightarrow> Match list" where
  "filterByLeague matches lg =
     filter (\<lambda>m. String_includes (toLowerCase (name (league m))) (toLowerCase lg)) matches"

definition filterLiveMatches :: "Match list \<Rightarrow> Match list" where
  "filterLiveMatches matches = filter (\<lambda>m. status m = ''live'') matches"

definition searchMatches :: "Match list \<Rightarrow> string \<Rightarrow> Match list" where
  "searchMatches matches query =
     filter (\<lambda>m. String_includes (toLowerCase (match_name m)) (toLowerCase query)) matches"

section \<open>Arrays as objects\<close>

text \<open>
  Whether a call changes the array it is given, and whether the array it returns is a new
  one, cannot be said of lists; it is said of a heap. A heap is the list of the arrays
  allocated so far and a reference is a position in it, so a reference is valid when it
  is below the length of the heap. The matches themselves are never changed by the
  program; an array holds them as values.

  \<open>Array.prototype.filter\<close> reads the length of the array it is called on, allocates
  an empty array, and for each index below that length, in increasing order, reads the
  element from the heap as it is then and appends it to the new array when the callback
  returns true. It returns the reference of the new array. The callbacks of the four
  filters only read their argument.
\<close>

type_synonym ref = nat

type_synonym heap = "Match list list"

definition Array_filter :: "(Match \<Rightarrow> bool) \<Rightarrow> ref \<Rightarrow> heap \<Rightarrow> ref \<times> heap" where
  "Array_filter callbackfn receiver h =
     (let len = length (h ! receiver);
          A = length h
      in (A, fold (\<lambda>k h. let kValue = h ! receiver ! k
                          in if callbackfn kValue then h[A := h ! A @ [kValue]] else h)
               [0..<len] (h @ [Nil])))"

text \<open>The four filters, called with a reference to the array of matches.\<close>

definition filterByGame_heap :: "ref \<Rightarrow> string \<Rightarrow> heap \<Rightarrow> ref \<times> heap" where
  "filterByGame_heap matches game h =
     Array_filter (\<lambda>match. toLowerCase (name (videogame match)) = toLowerCase game) matches h"

definition filterByLeague_heap :: "ref \<Rightarrow> string \<Rightarrow> heap \<Rightarrow> ref \<times> heap" where
  "filterByLeague_heap matches lg h =
     Array_filter
       (\<lambda>match. String_includes (toLowerCase (name (league match))) (toLowerCase lg)) matches h"

definition filterLiveMatches_heap :: "ref \<Rightarrow> heap \<Rightarrow> ref \<times> heap" where
  "filterLiveMatches_heap matches h = Array_filter (\<lambda>match. status match = ''live'') matches h"

definition searchMatches_heap :: "ref \<Rightarrow> string \<Rightarrow> heap \<Rightarrow> ref \<times> heap" where
  "searchMatches_heap matches query h =
     Array_filter
       (\<lambda>match. String_includes (toLowerCase (match_name match)) (toLowerCase query)) matches h"

section \<open>JSON values and the text of a file\<close>

text \<open>
  The values \<open>JSON.parse\<close> produces. An object keeps its members in order; where a key
  is repeated the last member counts, as in JavaScript. The numbers of a JSON text are
  taken as integers; a text with other numbers is outside the model.
\<close>

datatype json =
    JNull
  | JBool bool
  | JNum int
  | JStr string
  | JArr "json list"
  | JObj "(string \<times> json) list"

text \<open>
  The text of a file or of a response body is either a JSON text or some other text. A JSON
  text is kept as the value it denotes: \<open>JSON.stringify(v, null, 2)\<close> writes the text of
  \<open>v\<close>, and \<open>JSON.parse\<close> reads the value back or throws a \<open>SyntaxError\<close> on a text
  that is not JSON. Two texts that differ in white space only are not told apart.
\<close>

datatype content = Json json | NotJson string

datatype exn = TypeError | SyntaxError | NotFound

definition JSON_stringify :: "json \<Rightarrow> content" where
  "JSON_stringify v = Json v"

fun JSON_parse :: "content \<Rightarrow> exn + json" where
  "JSON_parse (Json v) = Inr v"
| "JSON_parse (NotJson s) = Inl SyntaxError"

text \<open>Reading a property of a parsed value; \<open>None\<close> is \<open>undefined\<close>.\<close>

definition property :: "string \<Rightarrow> (string \<times> json) list \<Rightarrow> json option" where
  "property k kvs = map_of (rev kvs) k"

section \<open>Dates\<close>

text \<open>
  An instant is a number of milliseconds since 1970-01-01T00:00:00Z. The clock of the model
  does not read before that origin, so what \<open>new Date()\<close> holds is a \<^typ>\<open>nat\<close>.
\<close>

definition is_leap :: "nat \<Rightarrow> bool" where
  "is_leap y = (y mod 4 = 0 \<and> (y mod 100 \<noteq> 0 \<or> y mod 400 = 0))"

definition year_length :: "nat \<Rightarrow> nat" where
  "year_length y = (if is_leap y then 366 else 365)"

definition month_length :: "nat \<Rightarrow> nat \<Rightarrow> nat" where
  "month_length y m =
     (if m = 2 then (if is_leap y then 29 else 28)
      else if m = 4 \<or> m = 6 \<or> m = 9 \<or> m = 11 then 30 else 31)"

text \<open>The year that holds day \<open>n\<close> counted from the first day of year \<open>y\<close>, and the day in it.\<close>

function year_from :: "nat \<Rightarrow> nat \<Rightarrow> nat \<times> nat" where
  "year_from y n = (if n < year_length y then (y, n) else year_from (Suc y) (n - year_length y))"
  by pat_completeness auto
termination
  by (relation "measure (\<lambda>(y, n). n)") (auto simp: year_length_def)

declare year_from.simps [simp del]

function month_from :: "nat \<Rightarrow> nat \<Rightarrow> nat \<Rightarrow> nat \<times> nat" where
  "month_from y m n =
     (if n < month_length y m \<or> 12 \<le> m then (m, n)
      else month_from y (Suc m) (n - month_length y m))"
  by pat_completeness auto
termination
  by (relation "measure (\<lambda>(y, m, n). 12 - m)") auto

declare month_from.simps [simp del]

text \<open>The last \<open>w\<close> decimal digits of \<open>n\<close>.\<close>

fun pad :: "nat \<Rightarrow> nat \<Rightarrow> string" where
  "pad 0 n = []"
| "pad (Suc w) n = pad w (n div 10) @ [char_of (48 + n mod 10)]"

text \<open>
  \<open>Date.prototype.toISOString\<close>: \<open>YYYY-MM-DDTHH:mm:ss.sssZ\<close>, the year with a sign and
  six digits from the year 10000 on.
\<close>

definition toISOString :: "nat \<Rightarrow> string" where
  "toISOString t =
     (let (y, doy) = year_from 1970 (t div 86400000);
          (m, d) = month_from y 1 doy
      in (if y \<le> 9999 then pad 4 y else CHR ''+'' # pad 6 y) @ ''-'' @ pad 2 m @ ''-'' @
         pad 2 (Suc d) @ ''T'' @ pad 2 (t div 3600000 mod 24) @ '':'' @
         pad 2 (t div 60000 mod 60) @ '':'' @ pad 2 (t div 1000 mod 60) @ ''.'' @
         pad 3 (t mod 1000) @ ''Z'')"

text \<open>The value of a run of decimal digits, read from the left with \<open>acc\<close> so far.\<close>

fun digits_val :: "nat \<Rightarrow> string \<Rightarrow> nat option" where
  "digits_val acc [] = Some acc"
| "digits_val acc (c # cs) =
     (let n = (of_char c :: nat)
      in if 48 \<le> n \<and> n \<le> 57 then digits_val (10 * acc + (n - 48)) cs else None)"

definition num_at :: "nat \<Rightarrow> nat \<Rightarrow> string \<Rightarrow> nat option" where
  "num_at i n s = digits_val 0 (take n (drop i s))"

definition leaps_before :: "nat \<Rightarrow> int" where
  "leaps_before y = int ((y + 3) div 4) - int ((y + 99) div 100) + int ((y + 399) div 400)"

definition days_before_year :: "nat \<Rightarrow> int" where
  "days_before_year y = 365 * (int y - 1970) + leaps_before y - leaps_before 1970"

definition days_before_month :: "nat \<Rightarrow> nat \<Rightarrow> nat" where
  "days_before_month y m = sum_list (map (month_length y) [1..<m])"

text \<open>
  \<open>Date.parse\<close> on the 24 characters \<open>YYYY-MM-DDTHH:mm:ss.sssZ\<close>: the instant, or
  \<open>None\<close> (\<open>NaN\<close>) when a field is out of its range. A day number up to 31 is taken in
  every month and carries over. Every other string is left to the engine: ECMAScript
  lets an implementation read such strings as it likes, and the shorter ISO forms
  depend on the local time zone.
\<close>

definition iso_fields :: "string \<Rightarrow> (nat \<times> nat \<times> nat \<times> nat \<times> nat \<times> nat \<times> nat) option" where
  "iso_fields s =
     (if length s = 24 \<and> s ! 4 = CHR ''-'' \<and> s ! 7 = CHR ''-'' \<and> s ! 10 = CHR ''T'' \<and>
         s ! 13 = CHR '':'' \<and> s ! 16 = CHR '':'' \<and> s ! 19 = CHR ''.'' \<and> s ! 23 = CHR ''Z''
      then do {
        y \<leftarrow> num_at 0 4 s;
        m \<leftarrow> num_at 5 2 s;
        d \<leftarrow> num_at 8 2 s;
        h \<leftarrow> num_at 11 2 s;
        mi \<leftarrow> num_at 14 2 s;
        sec \<leftarrow> num_at 17 2 s;
        ms \<leftarrow> num_at 20 3 s;
        Some (y, m, d, h, mi, sec, ms)
      }
      else None)"

fun iso_time :: "nat \<times> nat \<times> nat \<times> nat \<times> nat \<times> nat \<times> nat \<Rightarrow> int option" where
  "iso_time (y, m, d, h, mi, sec, ms) =
     (if 1 \<le> m \<and> m \<le> 12 \<and> 1 \<le> d \<and> d \<le> 31 \<and> mi \<le> 59 \<and> sec \<le> 59 \<and>
         (h \<le> 23 \<or> (h = 24 \<and> mi = 0 \<and> sec = 0 \<and> ms = 0))
      then Some ((((days_before_year y + int (days_before_month y m) + int d - 1) * 24
                    + int h) * 60 + int mi) * 60000 + int sec * 1000 + int ms)
      else None)"

definition Date_parse :: "(string \<Rightarrow> int option) \<Rightarrow> string \<Rightarrow> int option" where
  "Date_parse engine s = (case iso_fields s of None \<Rightarrow> engine s | Some f \<Rightarrow> iso_time f)"

text \<open>The string of a value, as \<open>ToPrimitive\<close> needs it for an array or an object.\<close>

function decimal :: "nat \<Rightarrow> string" where
  "decimal n = (if n < 10 then [char_of (48 + n)] else decimal (n div 10) @ [char_of (48 + n mod 10)])"
  by pat_completeness auto
termination
  by (relation "measure (\<lambda>n. n)") auto

declare decimal.simps [simp del]

fun join :: "string \<Rightarrow> string list \<Rightarrow> string" where
  "join sep [] = []"
| "join sep [x] = x"
| "join sep (x # y # ys) = x @ sep @ join sep (y # ys)"

fun ToString :: "json \<Rightarrow> string" where
  "ToString JNull = ''null''"
| "ToString (JBool b) = (if b then ''true'' else ''false'')"
| "ToString (JNum n) = (if n < 0 then CHR ''-'' # decimal (nat (- n)) else decimal (nat n))"
| "ToString (JStr s) = s"
| "ToString (JArr xs) = join '','' (map (\<lambda>x. if x = JNull then [] else ToString x) xs)"
| "ToString (JObj kvs) = ''[object Object]''"

text \<open>
  \<open>new Date(v).getTime()\<close> for a property \<open>v\<close> read from a parsed value: \<open>undefined\<close>
  gives \<open>NaN\<close>, \<open>null\<close>, a boolean and a number give a time value (a number beyond the
  range of time values gives \<open>NaN\<close>), a string is parsed, an array or an object is turned
  into its string first.
\<close>

definition TimeClip :: "int \<Rightarrow> int option" where
  "TimeClip t = (if \<bar>t\<bar> \<le> 8640000000000000 then Some t else None)"

fun Date_getTime :: "(string \<Rightarrow> int option) \<Rightarrow> json option \<Rightarrow> int option" where
  "Date_getTime engine None = None"
| "Date_getTime engine (Some JNull) = Some 0"
| "Date_getTime engine (Some (JBool b)) = Some (if b then 1 else 0)"
| "Date_getTime engine (Some (JNum n)) = TimeClip n"
| "Date_getTime engine (Some (JStr s)) = Date_parse engine s"
| "Date_getTime engine (Some (JArr xs)) = Date_parse engine (ToString (JArr xs))"
| "Date_getTime engine (Some (JObj kvs)) = Date_parse engine (ToString (JObj kvs))"

section \<open>The world the program runs in\<close>

text \<open>
  The program runs in one process, one step after the other, so its effects are modelled
  by passing a state: the files, the clock, the remote service and a log of what was done.
  Every awaited call of the platform takes \<open>delay\<close> milliseconds, chosen by the
  environment, possibly none: the clock never goes back, and it may stand still. The file
  system is a flat map from paths to texts, it can always be written, and nothing but the
  program changes it. Console output, prompts and colours are not modelled.
\<close>

record response =
  resp_status :: nat
  resp_statusText :: string
  resp_body :: content

datatype fetch_result = Rejected | Resolved response

record request =
  url :: string
  authorization :: string

record world =
  files :: "string \<Rightarrow> content option"
  dirs :: "string set"
  writes :: "(string \<times> content) list"
  clock :: nat
  delay :: "nat \<Rightarrow> nat"
  steps :: nat
  remote :: "nat \<Rightarrow> request \<Rightarrow> fetch_result"
  requests :: "request list"
  API_TOKEN :: string
  engine_date :: "string \<Rightarrow> int option"

definition BASE_URL :: string where
  "BASE_URL = ''https://api.pandascore.co''"

definition elapse :: "world \<Rightarrow> world" where
  "elapse w = w\<lparr>clock := clock w + delay w (steps w), steps := Suc (steps w)\<rparr>"

text \<open>\<open>exists\<close>, \<open>Deno.readTextFile\<close>, \<open>Deno.writeTextFile\<close> and \<open>Deno.mkdir\<close>.\<close>

definition exists_file :: "string \<Rightarrow> world \<Rightarrow> bool \<times> world" where
  "exists_file path w = (files w path \<noteq> None, elapse w)"

definition readTextFile :: "string \<Rightarrow> world \<Rightarrow> (exn + content) \<times> world" where
  "readTextFile path w =
     (case files w path of None \<Rightarrow> (Inl NotFound, elapse w) | Some t \<Rightarrow> (Inr t, elapse w))"

definition writeTextFile :: "string \<Rightarrow> content \<Rightarrow> world \<Rightarrow> world" where
  "writeTextFile path t w =
     elapse (w\<lparr>files := (files w)(path \<mapsto> t), writes := writes w @ [(path, t)]\<rparr>)"

definition mkdir :: "string \<Rightarrow> world \<Rightarrow> world" where
  "mkdir dir w = elapse (w\<lparr>dirs := insert dir (dirs w)\<rparr>)"

text \<open>
  \<open>fetch\<close> sends one request with the bearer token. It resolves with a response, of any
  status, or rejects with a \<open>TypeError\<close> when the request cannot be carried out.
  \<open>response.ok\<close> holds for a status from 200 to 299; \<open>response.json()\<close> parses the body.
\<close>

definition bearer :: "string \<Rightarrow> world \<Rightarrow> request" where
  "bearer u w = \<lparr>url = u, authorization = ''Bearer '' @ API_TOKEN w\<rparr>"

definition fetch :: "string \<Rightarrow> world \<Rightarrow> fetch_result \<times> world" where
  "fetch u w =
     (let req = bearer u w
      in (remote w (length (requests w)) req, elapse (w\<lparr>requests := requests w @ [req]\<rparr>)))"

definition ok :: "response \<Rightarrow> bool" where
  "ok r = (200 \<le> resp_status r \<and> resp_status r \<le> 299)"

definition response_json :: "response \<Rightarrow> world \<Rightarrow> (exn + json) \<times> world" where
  "response_json r w = (JSON_parse (resp_body r), elapse w)"

section \<open>The snapshot store\<close>

text \<open>\<open>s.replace("/", "_")\<close> with a string pattern replaces the first occurrence only.\<close>

fun replace_first :: "char \<Rightarrow> char \<Rightarrow> string \<Rightarrow> string" where
  "replace_first a b [] = []"
| "replace_first a b (c # cs) = (if c = a then b # cs else c # replace_first a b cs)"

text \<open>The template \<open>snapshot_${endpoint.replace("/", "_")}.json\<close>.\<close>

definition snapshotFile :: "string \<Rightarrow> string" where
  "snapshotFile endpoint = ''snapshot_'' @ replace_first CHR ''/'' CHR ''_'' endpoint @ ''.json''"

text \<open>\<open>dirname\<close> of a path that does not end in a slash.\<close>

definition dirname :: "string \<Rightarrow> string" where
  "dirname path =
     (if CHR ''/'' \<notin> set path then ''.''
      else let d = rev (dropWhile (\<lambda>c. c = CHR ''/'')
                     (tl (dropWhile (\<lambda>c. c \<noteq> CHR ''/'') (rev path))))
           in if d = [] then ''/'' else d)"

definition ensureDirectoryExists :: "string \<Rightarrow> world \<Rightarrow> world" where
  "ensureDirectoryExists filePath w = mkdir (dirname filePath) w"

text \<open>
  \<open>saveSnapshot\<close> of the entry point with the freshness policy. The parameter
  \<open>filename\<close> has the default \<open>snapshot.json\<close>; every call in the program passes it.
\<close>

definition saveSnapshot :: "json \<Rightarrow> string \<Rightarrow> world \<Rightarrow> world" where
  "saveSnapshot d filename w =
     (let snapshot = JObj [(''lastFetched'', JStr (toISOString (clock w))), (''data'', d)];
          w1 = ensureDirectoryExists filename w
      in writeTextFile filename (JSON_stringify snapshot) w1)"

text \<open>\<open>saveSnapshot\<close> of the reduced entry point \<open>main.ts\<close>: the payload alone.\<close>

definition saveSnapshot_reduced :: "json \<Rightarrow> string \<Rightarrow> world \<Rightarrow> world" where
  "saveSnapshot_reduced d filename w =
     (let w1 = ensureDirectoryExists filename w
      in writeTextFile filename (JSON_stringify d) w1)"

text \<open>
  The object \<open>{ lastFetched, data }\<close> the program hands around; a field that is
  \<open>undefined\<close> is \<open>None\<close>.
\<close>

record snapshot =
  lastFetched :: "json option"
  data :: "json option"

text \<open>
  \<open>const { lastFetched, data } = JSON.parse(snapshot)\<close>: destructuring \<open>null\<close> throws a
  \<open>TypeError\<close>; a value that is not an object has neither property.
\<close>

fun destructure :: "json \<Rightarrow> exn + snapshot" where
  "destructure JNull = Inl TypeError"
| "destructure (JObj kvs) =
     Inr \<lparr>lastFetched = property ''lastFetched'' kvs, data = property ''data'' kvs\<rparr>"
| "destructure v = Inr \<lparr>lastFetched = None, data = None\<rparr>"

section \<open>Fetching\<close>

text \<open>
  \<open>fetchEsportsData\<close> of the entry point with the freshness policy. \<open>Inl\<close> is an
  exception that leaves the function, \<open>Inr None\<close> the returned \<open>null\<close>. The parameter
  \<open>useSnapshot\<close> has the default \<open>false\<close>.
\<close>

definition fetchEsportsData :: "string \<Rightarrow> bool \<Rightarrow> world \<Rightarrow> (exn + snapshot option) \<times> world" where
  "fetchEsportsData endpoint useSnapshot w =
     (let file = snapshotFile endpoint;
          (found, w1) = (if useSnapshot then exists_file file w else (False, w))
      in if found then
           (case readTextFile file w1 of
              (Inl e, w2) \<Rightarrow> (Inl e, w2)
            | (Inr snapshot, w2) \<Rightarrow>
                (case JSON_parse snapshot of
                   Inl e \<Rightarrow> (Inl e, w2)
                 | Inr v \<Rightarrow>
                     (case destructure v of
                        Inl e \<Rightarrow> (Inl e, w2)
                      | Inr s \<Rightarrow> (Inr (Some s), w2))))
         else
           (case fetch (BASE_URL @ endpoint) w1 of
              (Rejected, w2) \<Rightarrow> (Inl TypeError, w2)
            | (Resolved r, w2) \<Rightarrow>
                if \<not> ok r then (Inr None, w2)
                else
                  (case response_json r w2 of
                     (Inl e, w3) \<Rightarrow> (Inl e, w3)
                   | (Inr d, w3) \<Rightarrow>
                       (let w4 = saveSnapshot d file w3
                        in (Inr (Some \<lparr>lastFetched = Some (JStr (toISOString (clock w4))),
                                         data = Some d\<rparr>), w4)))))"

text \<open>
  \<open>fetchEsportsData\<close> of the reduced entry point \<open>main.ts\<close>: it returns the parsed file
  or the payload itself, and \<open>null\<close> (\<^const>\<open>JNull\<close>) on a response that is not ok.
\<close>

definition fetchEsportsData_reduced :: "string \<Rightarrow> bool \<Rightarrow> world \<Rightarrow> (exn + json) \<times> world" where
  "fetchEsportsData_reduced endpoint useSnapshot w =
     (let file = snapshotFile endpoint;
          (found, w1) = (if useSnapshot then exists_file file w else (False, w))
      in if found then
           (case readTextFile file w1 of
              (Inl e, w2) \<Rightarrow> (Inl e, w2)
            | (Inr snapshot, w2) \<Rightarrow>
                (case JSON_parse snapshot of
                   Inl e \<Rightarrow> (Inl e, w2)
                 | Inr v \<Rightarrow> (Inr v, w2)))
         else
           (case fetch (BASE_URL @ endpoint) w1 of
              (Rejected, w2) \<Rightarrow> (Inl TypeError, w2)
            | (Resolved r, w2) \<Rightarrow>
                if \<not> ok r then (Inr JNull, w2)
                else
                  (case response_json r w2 of
                     (Inl e, w3) \<Rightarrow> (Inl e, w3)
                   | (Inr d, w3) \<Rightarrow> (Inr d, saveSnapshot_reduced d file w3))))"

section \<open>Numbers\<close>

text \<open>
  A JavaScript number is a double. A finite double is modelled by its value, a
  \<^typ>\<open>real\<close>, and \<open>NaN\<close> by \<open>None\<close> where it can arise; the infinities do not arise
  here. An arithmetic operation yields the exact result rounded to the nearest double, a
  tie going to the double with the even significand.

  The exponent of a positive real \<open>x\<close> is the integer \<open>e\<close> with \<open>2 ^ e \<le> x < 2 ^ (e + 1)\<close>.
  The doubles between these two powers are the multiples of \<open>2 ^ (e - 52)\<close>, since a
  double has a significand of 53 bits. The range of the exponent of a double, from -1022
  to 1023, is not modelled: what is rounded here is a difference of two instants and its
  quotient by 60000, which is zero or at least 1/60000 in magnitude and far below
  \<open>2 ^ 1024\<close>.
\<close>

fun ilog2 :: "nat \<Rightarrow> nat" where
  "ilog2 n = (if n < 2 then 0 else Suc (ilog2 (n div 2)))"

declare ilog2.simps [simp del]

definition exponent :: "real \<Rightarrow> int" where
  "exponent x =
     (if 1 \<le> x then int (ilog2 (nat \<lfloor>x\<rfloor>)) else - int (ilog2 (nat \<lceil>1 / x\<rceil> - 1)) - 1)"

definition round_half_even :: "real \<Rightarrow> int" where
  "round_half_even q =
     (let f = \<lfloor>q\<rfloor>
      in if q - of_int f < 1 / 2 then f
         else if 1 / 2 < q - of_int f then f + 1
         else if even f then f else f + 1)"

definition round_double :: "real \<Rightarrow> real" where
  "round_double x =
     (if x = 0 then 0
      else let ulp = 2 powi (exponent \<bar>x\<bar> - 52)
           in sgn x * of_int (round_half_even (\<bar>x\<bar> / ulp)) * ulp)"

text \<open>The operators \<open>-\<close> and \<open>/\<close> on numbers.\<close>

definition number_minus :: "real \<Rightarrow> real \<Rightarrow> real" where
  "number_minus a b = round_double (a - b)"

definition number_divide :: "real \<Rightarrow> real \<Rightarrow> real" where
  "number_divide a b = round_double (a / b)"

section \<open>The freshness policy\<close>

text \<open>
  \<open>(new Date().getTime() - new Date(lastFetched).getTime()) / 60000\<close>, with \<open>None\<close>
  for \<open>NaN\<close>; a comparison with \<open>NaN\<close> is false. A time value is an integer of at
  most 8.64e15 in magnitude, so it is a double as it stands; the clock is taken to read
  within that range.
\<close>

definition elapsedMinutes :: "world \<Rightarrow> json option \<Rightarrow> real option" where
  "elapsedMinutes w lf =
     map_option (\<lambda>t. number_divide (number_minus (real (clock w)) (real_of_int t)) 60000)
       (Date_getTime (engine_date w) lf)"

fun number_less :: "real option \<Rightarrow> real \<Rightarrow> bool" where
  "number_less None c = False"
| "number_less (Some e) c = (e < c)"

text \<open>
  \<open>fetchIfNeeded\<close>; the parameter \<open>cooldownMinutes\<close>, a number, has the default 10.
\<close>

definition fetchIfNeeded :: "string \<Rightarrow> real \<Rightarrow> world \<Rightarrow> (exn + snapshot option) \<times> world" where
  "fetchIfNeeded endpoint cooldownMinutes w =
     (let file = snapshotFile endpoint;
          (found, w1) = exists_file file w
      in if found then
           (case readTextFile file w1 of
              (Inl e, w2) \<Rightarrow> (Inl e, w2)
            | (Inr snapshot, w2) \<Rightarrow>
                (case JSON_parse snapshot of
                   Inl e \<Rightarrow> (Inl e, w2)
                 | Inr v \<Rightarrow>
                     (case destructure v of
                        Inl e \<Rightarrow> (Inl e, w2)
                      | Inr s \<Rightarrow>
                          if number_less (elapsedMinutes w2 (lastFetched s)) cooldownMinutes
                          then (Inr (Some s), w2)
                          else fetchEsportsData endpoint False w2)))
         else fetchEsportsData endpoint False w1)"

section \<open>The type of the payload\<close>

text \<open>
  A parsed value has the type \<open>Match[]\<close> when it is an array of objects with the
  properties the interface \<open>Match\<close> declares, each of the declared type; \<open>acronym\<close>
  and \<open>location\<close> may be missing.
\<close>

fun is_string :: "json option \<Rightarrow> bool" where
  "is_string (Some (JStr s)) = True"
| "is_string v = False"

fun is_number :: "json option \<Rightarrow> bool" where
  "is_number (Some (JNum n)) = True"
| "is_number v = False"

fun is_optional_string :: "json option \<Rightarrow> bool" where
  "is_optional_string None = True"
| "is_optional_string (Some (JStr s)) = True"
| "is_optional_string v = False"

fun is_named :: "json option \<Rightarrow> bool" where
  "is_named (Some (JObj kvs)) = is_string (property ''name'' kvs)"
| "is_named v = False"

fun is_team :: "json option \<Rightarrow> bool" where
  "is_team (Some (JObj kvs)) =
     (is_number (property ''id'' kvs) \<and> is_string (property ''name'' kvs) \<and>
      is_optional_string (property ''acronym'' kvs) \<and>
      is_optional_string (property ''location'' kvs))"
| "is_team v = False"

fun is_opponent_entry :: "json \<Rightarrow> bool" where
  "is_opponent_entry (JObj kvs) = is_team (property ''opponent'' kvs)"
| "is_opponent_entry v = False"

fun is_opponents :: "json option \<Rightarrow> bool" where
  "is_opponents (Some (JArr xs)) = list_all is_opponent_entry xs"
| "is_opponents v = False"

fun is_Match :: "json \<Rightarrow> bool" where
  "is_Match (JObj kvs) =
     (is_number (property ''id'' kvs) \<and> is_string (property ''name'' kvs) \<and>
      is_string (property ''scheduled_at'' kvs) \<and> is_string (property ''status'' kvs) \<and>
      is_named (property ''videogame'' kvs) \<and> is_named (property ''league'' kvs) \<and>
      is_named (property ''tournament'' kvs) \<and> is_opponents (property ''opponents'' kvs))"
| "is_Match v = False"

fun is_matches :: "json \<Rightarrow> bool" where
  "is_matches (JArr xs) = list_all is_Match xs"
| "is_matches v = False"

text \<open>
  The type assertion \<open>fetchEsportsData<Match[]>\<close> does nothing at run time. The model
  reads a value of the asserted type as the records it stands for; on a value of another
  type, where the program would meet properties that are \<open>undefined\<close>, the reading is
  arbitrary and the statements about sessions do not cover it.
\<close>

fun as_string :: "json option \<Rightarrow> string" where
  "as_string (Some (JStr s)) = s"
| "as_string v = []"

fun as_number :: "json option \<Rightarrow> int" where
  "as_number (Some (JNum n)) = n"
| "as_number v = 0"

fun as_optional_string :: "json option \<Rightarrow> string option" where
  "as_optional_string (Some (JStr s)) = Some s"
| "as_optional_string v = None"

fun as_named :: "json option \<Rightarrow> named" where
  "as_named (Some (JObj kvs)) = \<lparr>name = as_string (property ''name'' kvs)\<rparr>"
| "as_named v = \<lparr>name = []\<rparr>"

fun as_team :: "json option \<Rightarrow> team" where
  "as_team (Some (JObj kvs)) =
     \<lparr>team_id = as_number (property ''id'' kvs), team_name = as_string (property ''name'' kvs),
      acronym = as_optional_string (property ''acronym'' kvs),
      location = as_optional_string (property ''location'' kvs)\<rparr>"
| "as_team v = \<lparr>team_id = 0, team_name = [], acronym = None, location = None\<rparr>"

fun as_opponent_entry :: "json \<Rightarrow> opponent_entry" where
  "as_opponent_entry (JObj kvs) = \<lparr>opponent = as_team (property ''opponent'' kvs)\<rparr>"
| "as_opponent_entry v = \<lparr>opponent = as_team None\<rparr>"

fun as_opponents :: "json option \<Rightarrow> opponent_entry list" where
  "as_opponents (Some (JArr xs)) = map as_opponent_entry xs"
| "as_opponents v = []"

fun as_Match :: "json \<Rightarrow> Match" where
  "as_Match (JObj kvs) =
     \<lparr>match_id = as_number (property ''id'' kvs), match_name = as_string (property ''name'' kvs),
      scheduled_at = as_string (property ''scheduled_at'' kvs),
      status = as_string (property ''status'' kvs),
      videogame = as_named (property ''videogame'' kvs),
      league = as_named (property ''league'' kvs),
      tournament = as_named (property ''tournament'' kvs),
      opponents = as_opponents (property ''opponents'' kvs)\<rparr>"
| "as_Match v =
     \<lparr>match_id = 0, match_name = [], scheduled_at = [], status = [], videogame = as_named None,
      league = as_named None, tournament = as_named None, opponents = []\<rparr>"

fun as_matches :: "json \<Rightarrow> Match list" where
  "as_matches (JArr xs) = map as_Match xs"
| "as_matches v = []"

section \<open>The interactive session\<close>

text \<open>
  The choices of the user are given as a script, one action for each time the main menu
  is shown. A session whose script runs out stays at the prompt: the model ends it there.
  The payload is taken to have the type \<open>Match[]\<close> the program asserts, so listing and
  filtering it raise nothing, and what they print is not modelled; the statements about
  sessions below are made for payloads of that type. The session returns, next to the
  exception that left it if any, the actions it served, each with the matches it listed.
\<close>

datatype action =
    FetchNewData
  | FilterByGame string
  | FilterByLeague string
  | ViewLiveMatches
  | SearchMatches string
  | ViewAllMatches
  | Exit

text \<open>
  The matches a case of the \<open>switch\<close> hands on to be listed: all of them, or what a
  filter returns of them (an empty result is reported and not listed). The cases Fetch
  New Data and Exit list nothing.
\<close>

fun listed :: "action \<Rightarrow> json \<Rightarrow> Match list" where
  "listed (FilterByGame game) matches = filterByGame (as_matches matches) game"
| "listed (FilterByLeague lg) matches = filterByLeague (as_matches matches) lg"
| "listed ViewLiveMatches matches = filterLiveMatches (as_matches matches)"
| "listed (SearchMatches query) matches = searchMatches (as_matches matches) query"
| "listed ViewAllMatches matches = as_matches matches"
| "listed FetchNewData matches = []"
| "listed Exit matches = []"

text \<open>\<open>!v\<close> and \<open>v.length === 0\<close> on a parsed value.\<close>

fun falsy :: "json \<Rightarrow> bool" where
  "falsy JNull = True"
| "falsy (JBool b) = (\<not> b)"
| "falsy (JNum n) = (n = 0)"
| "falsy (JStr s) = (s = [])"
| "falsy (JArr xs) = False"
| "falsy (JObj kvs) = False"

fun length_is_zero :: "json \<Rightarrow> bool" where
  "length_is_zero (JArr xs) = (xs = [])"
| "length_is_zero (JStr s) = (s = [])"
| "length_is_zero (JObj kvs) = (property ''length'' kvs = Some (JNum 0))"
| "length_is_zero v = False"

fun mainMenu :: "action list \<Rightarrow> world \<Rightarrow> (exn option \<times> (action \<times> Match list) list) \<times> world" where
  "mainMenu script w =
     (case fetchEsportsData ''/matches/upcoming'' True w of
        (Inl e, w1) \<Rightarrow> ((Some e, []), w1)
      | (Inr None, w1) \<Rightarrow> ((None, []), w1)
      | (Inr (Some response), w1) \<Rightarrow>
          (case data response of
             None \<Rightarrow> ((None, []), w1)
           | Some matches \<Rightarrow>
               if falsy matches \<or> length_is_zero matches then ((None, []), w1)
               else
                 (case script of
                    [] \<Rightarrow> ((None, []), w1)
                  | Exit # rest \<Rightarrow> ((None, [(Exit, [])]), w1)
                  | FetchNewData # rest \<Rightarrow>
                      (case fetchIfNeeded ''/matches/upcoming'' 10 w1 of
                         (Inl e, w2) \<Rightarrow> ((Some e, [(FetchNewData, [])]), w2)
                       | (Inr newResponse, w2) \<Rightarrow>
                           (case mainMenu rest w2 of
                              ((r, served), w3) \<Rightarrow> ((r, (FetchNewData, []) # served), w3)))
                  | a # rest \<Rightarrow>
                      (case mainMenu rest w1 of
                         ((r, served), w3) \<Rightarrow> ((r, (a, listed a matches) # served), w3)))))"

declare mainMenu.simps [simp del]

text \<open>
  The main menu of the reduced entry point \<open>main.ts\<close> offers three actions; its
  \<open>switch\<close> has no case for any other, which then leads to the next round.
\<close>

fun mainMenu_reduced :: "action list \<Rightarrow> world \<Rightarrow> (exn option \<times> (action \<times> Match list) list) \<times> world" where
  "mainMenu_reduced script w =
     (case fetchEsportsData_reduced ''/matches/upcoming'' True w of
        (Inl e, w1) \<Rightarrow> ((Some e, []), w1)
      | (Inr matches, w1) \<Rightarrow>
          if falsy matches \<or> length_is_zero matches then ((None, []), w1)
          else
            (case script of
               [] \<Rightarrow> ((None, []), w1)
             | Exit # rest \<Rightarrow> ((None, [(Exit, [])]), w1)
             | FilterByGame g # rest \<Rightarrow>
                 (case mainMenu_reduced rest w1 of
                    ((r, served), w3) \<Rightarrow> ((r, (FilterByGame g, filterByGame (as_matches matches) g) # served), w3))
             | ViewAllMatches # rest \<Rightarrow>
                 (case mainMenu_reduced rest w1 of
                    ((r, served), w3) \<Rightarrow> ((r, (ViewAllMatches, as_matches matches) # served), w3))
             | a # rest \<Rightarrow> mainMenu_reduced rest w1))"

declare mainMenu_reduced.simps [simp del]

text \<open>
  The module: without a token it exits with status 1 before any menu; otherwise it calls
  \<open>main\<close> and does not catch what \<open>main\<close> throws, which ends the process.
\<close>

definition main :: "action list \<Rightarrow> world \<Rightarrow> (exn option \<times> (action \<times> Match list) list) \<times> world" where
  "main script w = mainMenu script w"

definition main_reduced :: "action list \<Rightarrow> world \<Rightarrow> (exn option \<times> (action \<times> Match list) list) \<times> world" where
  "main_reduced script w = mainMenu_reduced script w"

datatype ending = Finished | Exited nat | Uncaught exn

definition program :: "action list \<Rightarrow> world \<Rightarrow> ending \<times> world" where
  "program script w =
     (if API_TOKEN w = [] then (Exited 1, w)
      else (case main script w of
              ((None, served), w1) \<Rightarrow> (Finished, w1)
            | ((Some e, served), w1) \<Rightarrow> (Uncaught e, w1)))"

definition program_reduced :: "action list \<Rightarrow> world \<Rightarrow> ending \<times> world" where
  "program_reduced script w =
     (if API_TOKEN w = [] then (Exited 1, w)
      else (case main_reduced script w of
              ((None, served), w1) \<Rightarrow> (Finished, w1)
            | ((Some e, served), w1) \<Rightarrow> (Uncaught e, w1)))"

section \<open>What the remote service answers, and sample worlds\<close>

text \<open>The answer the remote service has for the next request of an endpoint.\<close>

definition answer :: "string \<Rightarrow> world \<Rightarrow> fetch_result" where
  "answer endpoint w = remote w (length (requests w)) (bearer (BASE_URL @ endpoint) w)"

text \<open>
  What a reader obtains from the snapshot file of an endpoint, when the file is there, is
  JSON and can be destructured; and the instant its \<open>lastFetched\<close> stands for.
\<close>

definition stored :: "string \<Rightarrow> world \<Rightarrow> snapshot option" where
  "stored endpoint w =
     (case files w (snapshotFile endpoint) of
        None \<Rightarrow> None
      | Some txt \<Rightarrow>
          (case JSON_parse txt of
             Inl e \<Rightarrow> None
           | Inr v \<Rightarrow> (case destructure v of Inl e \<Rightarrow> None | Inr s \<Rightarrow> Some s)))"

definition previous_timestamp :: "string \<Rightarrow> world \<Rightarrow> int option" where
  "previous_timestamp endpoint w =
     (case stored endpoint w of
        None \<Rightarrow> None
      | Some s \<Rightarrow> Date_getTime (engine_date w) (lastFetched s))"

text \<open>The object \<open>saveSnapshot\<close> writes at instant \<open>t\<close> for the payload \<open>d\<close>.\<close>

abbreviation snapshot_object :: "nat \<Rightarrow> json \<Rightarrow> json" where
  "snapshot_object t d \<equiv> JObj [(''lastFetched'', JStr (toISOString t)), (''data'', d)]"

text \<open>
  Worlds for the concrete runs below: one file at most, the snapshot of
  \<open>/matches/upcoming\<close>; a clock reading; the time every awaited call takes; and the one
  answer the remote service gives.
\<close>

definition sample_match :: "int \<Rightarrow> string \<Rightarrow> string \<Rightarrow> json" where
  "sample_match i title game =
     JObj [(''id'', JNum i), (''name'', JStr title),
           (''scheduled_at'', JStr ''2024-01-02T18:00:00Z''), (''status'', JStr ''not_started''),
           (''videogame'', JObj [(''name'', JStr game)]),
           (''league'', JObj [(''name'', JStr ''Champions Tour'')]),
           (''tournament'', JObj [(''name'', JStr ''Playoffs'')]),
           (''opponents'',
             JArr [JObj [(''opponent'',
                          JObj [(''id'', JNum 10), (''name'', JStr ''Alpha''),
                                (''acronym'', JStr ''ALP'')])],
                   JObj [(''opponent'', JObj [(''id'', JNum 11), (''name'', JStr ''Beta'')])]])]"

definition old_payload :: json where
  "old_payload = JArr [sample_match 1 ''Alpha vs Beta'' ''Valorant'']"

definition new_payload :: json where
  "new_payload = JArr [sample_match 2 ''Gamma vs Delta'' ''Counter-Strike'']"

definition sample_world :: "content option \<Rightarrow> nat \<Rightarrow> nat \<Rightarrow> fetch_result \<Rightarrow> world" where
  "sample_world file now ms reply =
     \<lparr>files = (\<lambda>p. if p = ''snapshot__matches/upcoming.json'' then file else None),
      dirs = {}, writes = [], clock = now, delay = (\<lambda>k. ms), steps = 0,
      remote = (\<lambda>k req. reply), requests = [], API_TOKEN = ''token'',
      engine_date = (\<lambda>s. None)\<rparr>"

definition ok_reply :: fetch_result where
  "ok_reply = Resolved \<lparr>resp_status = 200, resp_statusText = ''OK'', resp_body = Json new_payload\<rparr>"

definition error_reply :: fetch_result where
  "error_reply =
     Resolved \<lparr>resp_status = 503, resp_statusText = ''Service Unavailable'',
               resp_body = NotJson ''unavailable''\<rparr>"

text \<open>A snapshot written at 2024-01-01T00:00:00.000Z, the instant 1704067200000.\<close>

definition old_snapshot :: content where
  "old_snapshot =
     Json (JObj [(''lastFetched'', JStr ''2024-01-01T00:00:00.000Z''), (''data'', old_payload)])"

section \<open>Equality ignoring case\<close>

text \<open>
  The reading of the specification, written without \<open>toLowerCase\<close>: the capital letters
  below \<open>U+0100\<close> and, at the same positions, their small forms. Two code units are the
  same letter when they are equal or one is the capital and the other the small form of one
  letter. Two strings are equal ignoring case when they have the same length and hold the
  same letter at every position.
\<close>

definition capital_letters :: string where
  "capital_letters = ''ABCDEFGHIJKLMNOPQRSTUVWXYZ'' @
     [CHR 0xC0, CHR 0xC1, CHR 0xC2, CHR 0xC3, CHR 0xC4, CHR 0xC5, CHR 0xC6, CHR 0xC7,
      CHR 0xC8, CHR 0xC9, CHR 0xCA, CHR 0xCB, CHR 0xCC, CHR 0xCD, CHR 0xCE, CHR 0xCF,
      CHR 0xD0, CHR 0xD1, CHR 0xD2, CHR 0xD3, CHR 0xD4, CHR 0xD5, CHR 0xD6,
      CHR 0xD8, CHR 0xD9, CHR 0xDA, CHR 0xDB, CHR 0xDC, CHR 0xDD, CHR 0xDE]"

definition small_letters :: string where
  "small_letters = ''abcdefghijklmnopqrstuvwxyz'' @
     [CHR 0xE0, CHR 0xE1, CHR 0xE2, CHR 0xE3, CHR 0xE4, CHR 0xE5, CHR 0xE6, CHR 0xE7,
      CHR 0xE8, CHR 0xE9, CHR 0xEA, CHR 0xEB, CHR 0xEC, CHR 0xED, CHR 0xEE, CHR 0xEF,
      CHR 0xF0, CHR 0xF1, CHR 0xF2, CHR 0xF3, CHR 0xF4, CHR 0xF5, CHR 0xF6,
      CHR 0xF8, CHR 0xF9, CHR 0xFA, CHR 0xFB, CHR 0xFC, CHR 0xFD, CHR 0xFE]"

definition same_letter :: "char \<Rightarrow> char \<Rightarrow> bool" where
  "same_letter a b \<longleftrightarrow>
     a = b \<or> (a, b) \<in> set (zip capital_letters small_letters) \<or>
     (b, a) \<in> set (zip capital_letters small_letters)"

definition equal_ignoring_case :: "string \<Rightarrow> string \<Rightarrow> bool" where
  "equal_ignoring_case s t = list_all2 same_letter s t"

text \<open>A name contains a query ignoring case when a run of it equals the query ignoring case.\<close>

definition contains_ignoring_case :: "string \<Rightarrow> string \<Rightarrow> bool" where
  "contains_ignoring_case s q \<longleftrightarrow> (\<exists>t. sublist t s \<and> equal_ignoring_case t q)"

section \<open>Calls that are pure\<close>

text \<open>
  What it is for a call on the array at \<open>matches\<close> in the heap \<open>h\<close> to be pure, where
  \<open>out\<close> is the reference the call returns with the heap it leaves and \<open>result\<close> is
  what the returned array has to hold. Every array of \<open>h\<close> is in the heap after the call
  at its place and unchanged, the one at \<open>matches\<close> among them; the reference returned is
  not one of \<open>h\<close>, so the array is new; and the array holds \<open>result\<close>, a subsequence
  of the array at \<open>matches\<close>.
\<close>

definition pure_call :: "heap \<Rightarrow> ref \<Rightarrow> ref \<times> heap \<Rightarrow> Match list \<Rightarrow> bool" where
  "pure_call h matches out result \<longleftrightarrow>
     take (length h) (snd out) = h \<and>
     snd out ! matches = h ! matches \<and>
     length h \<le> fst out \<and> fst out < length (snd out) \<and>
     snd out ! fst out = result \<and>
     subseq result (h ! matches)"

section \<open>Doubles\<close>

text \<open>
  A real is a finite double when rounding leaves it as it is, it is below \<open>2 ^ 1024\<close> in
  magnitude, and it is a multiple of \<open>2 ^ - 1074\<close>, the least positive double.
  \<open>a_tenth\<close> is the double nearest to 1/10, the value of the literal \<open>0.1\<close>; it lies a
  little above 1/10.
\<close>

definition is_double :: "real \<Rightarrow> bool" where
  "is_double x \<longleftrightarrow>
     round_double x = x \<and> \<bar>x\<bar> < 2 ^ 1024 \<and> of_int \<lfloor>x * 2 ^ 1074\<rfloor> = x * 2 ^ 1074"

definition a_tenth :: real where
  "a_tenth = 3602879701896397 / 36028797018963968"

text \<open>
  A snapshot whose \<open>lastFetched\<close> is the number of the earliest instant a \<open>Date\<close> can
  hold, and a cooldown of some 285000 years, a double.
\<close>

definition far_snapshot :: content where
  "far_snapshot =
     Json (JObj [(''lastFetched'', JNum (- 8640000000000000)), (''data'', old_payload)])"

definition far_cooldown :: real where
  "far_cooldown = 4803839602531 / 32"

text \<open>Three matches in one array, for the concrete runs of the filters on a heap.\<close>

definition sample_Match :: "int \<Rightarrow> string \<Rightarrow> string \<Rightarrow> string \<Rightarrow> string \<Rightarrow> Match" where
  "sample_Match i title state game lg =
     \<lparr>match_id = i, match_name = title, scheduled_at = ''2024-01-02T18:00:00Z'', status = state,
      videogame = \<lparr>name = game\<rparr>, league = \<lparr>name = lg\<rparr>, tournament = \<lparr>name = ''Playoffs''\<rparr>,
      opponents = []\<rparr>"

definition sample_matches :: "Match list" where
  "sample_matches =
     [sample_Match 1 ''Semifinal A'' ''live'' ''Counter-Strike'' ''Champions Tour'',
      sample_Match 2 ''Quarterfinal B'' ''finished'' ''Valorant'' ''Masters'',
      sample_Match 3 ''Grand Semifinal'' ''live'' ''counter-strike'' ''Champions League'']"

definition sample_heap :: heap where
  "sample_heap = [sample_matches]"

section \<open>Properties of the dates\<close>

lemma ceil_div_step:
  fixes y k :: nat
  assumes "0 < k"
  shows "(Suc y + (k - 1)) div k = (y + (k - 1)) div k + (if k dvd y then 1 else 0)"
proof -
  define q r where "q = y div k" and "r = y mod k"
  have y: "y = k * q + r" and r: "r < k" using assms by (simp_all add: q_def r_def)
  have up: "(Suc y + (k - 1)) div k = Suc q"
  proof (rule div_nat_eqI)
    show "k * Suc q \<le> Suc y + (k - 1)" using y assms by simp
    show "Suc y + (k - 1) < k * Suc (Suc q)" using y r assms by simp
  qed
  show ?thesis
  proof (cases "k dvd y")
    case True
    then have "r = 0" by (simp add: r_def)
    have "(y + (k - 1)) div k = q"
    proof (rule div_nat_eqI)
      show "k * q \<le> y + (k - 1)" using y by simp
      show "y + (k - 1) < k * Suc q" using y \<open>r = 0\<close> assms by simp
    qed
    with up True show ?thesis by simp
  next
    case False
    then have "0 < r" by (simp add: r_def dvd_eq_mod_eq_0)
    have "(y + (k - 1)) div k = Suc q"
    proof (rule div_nat_eqI)
      show "k * Suc q \<le> y + (k - 1)" using y \<open>0 < r\<close> assms by simp
      show "y + (k - 1) < k * Suc (Suc q)" using y r assms by simp
    qed
    with up False show ?thesis by simp
  qed
qed

lemma is_leap_dvd: "is_leap y \<longleftrightarrow> 4 dvd y \<and> (\<not> 100 dvd y \<or> 400 dvd y)"
  by (simp add: is_leap_def dvd_eq_mod_eq_0)

lemma leaps_step: "leaps_before (Suc y) = leaps_before y + (if is_leap y then 1 else 0)"
proof -
  have a: "(400::nat) dvd y \<Longrightarrow> 100 dvd y" and b: "(100::nat) dvd y \<Longrightarrow> 4 dvd y"
    by (auto elim: dvd_trans [rotated])
  have e4: "(Suc y + 3) div 4 = (y + 3) div 4 + (if 4 dvd y then 1 else 0)"
    using ceil_div_step [of 4 y] by simp
  have e100: "(Suc y + 99) div 100 = (y + 99) div 100 + (if 100 dvd y then 1 else 0)"
    using ceil_div_step [of 100 y] by simp
  have e400: "(Suc y + 399) div 400 = (y + 399) div 400 + (if 400 dvd y then 1 else 0)"
    using ceil_div_step [of 400 y] by simp
  have "leaps_before (Suc y) =
      int ((y + 3) div 4 + (if 4 dvd y then 1 else 0)) -
      int ((y + 99) div 100 + (if 100 dvd y then 1 else 0)) +
      int ((y + 399) div 400 + (if 400 dvd y then 1 else 0))"
    by (simp only: leaps_before_def e4 e100 e400)
  also have "\<dots> = leaps_before y + (if is_leap y then 1 else 0)"
    using a b by (cases "4 dvd y"; cases "100 dvd y"; cases "400 dvd y")
      (simp_all add: leaps_before_def is_leap_dvd)
  finally show ?thesis .
qed

lemma days_before_year_Suc:
  "days_before_year (Suc y) = days_before_year y + int (year_length y)"
  by (simp add: days_before_year_def leaps_step year_length_def)

lemma year_from_correct:
  "year_from y n = (y', r) \<Longrightarrow>
     y \<le> y' \<and> r < year_length y' \<and> days_before_year y' + int r = days_before_year y + int n"
proof (induction y n rule: year_from.induct)
  case (1 y n)
  show ?case
  proof (cases "n < year_length y")
    case True
    with "1.prems" show ?thesis by (simp add: year_from.simps [of y n])
  next
    case False
    with "1.prems" have "year_from (Suc y) (n - year_length y) = (y', r)"
      by (simp add: year_from.simps [of y n])
    from "1.IH" [OF False this] False show ?thesis
      by (simp add: days_before_year_Suc)
  qed
qed

lemma days_before_month_Suc:
  "1 \<le> m \<Longrightarrow> days_before_month y (Suc m) = days_before_month y m + month_length y m"
  by (simp add: days_before_month_def)

lemma month_from_correct:
  "month_from y m n = (m', r) \<Longrightarrow> 1 \<le> m \<Longrightarrow> m \<le> 12 \<Longrightarrow>
     m \<le> m' \<and> m' \<le> 12 \<and>
     days_before_month y m' + r = days_before_month y m + n \<and>
     (r < month_length y m' \<or> m' = 12)"
proof (induction y m n rule: month_from.induct)
  case (1 y m n)
  show ?case
  proof (cases "n < month_length y m \<or> 12 \<le> m")
    case True
    with "1.prems" show ?thesis by (auto simp: month_from.simps [of y m n])
  next
    case False
    with "1.prems" have "month_from y (Suc m) (n - month_length y m) = (m', r)"
      by (simp add: month_from.simps [of y m n])
    from "1.IH" [OF False this] False "1.prems" show ?thesis
      by (auto simp: days_before_month_Suc)
  qed
qed

lemma upt_1_12: "[Suc 0..<12] = [1,2,3,4,5,6,7,8,9,10,11::nat]"
  by code_simp

lemma days_before_month_12: "days_before_month y 12 + month_length y 12 = year_length y"
  by (simp add: days_before_month_def upt_1_12 month_length_def year_length_def)

lemma length_pad: "length (pad w n) = w"
  by (induction w arbitrary: n) simp_all

lemma digits_val_append:
  "digits_val acc (xs @ ys) =
     (case digits_val acc xs of None \<Rightarrow> None | Some a \<Rightarrow> digits_val a ys)"
  by (induction xs arbitrary: acc) (simp_all add: Let_def)

lemma of_char_digit: "k < 10 \<Longrightarrow> (of_char (char_of (48 + k)) :: nat) = 48 + k"
  by (simp add: of_char_of)

lemma digits_val_pad: "digits_val acc (pad w n) = Some (acc * 10 ^ w + n mod 10 ^ w)"
proof (induction w arbitrary: n acc)
  case 0
  show ?case by simp
next
  case (Suc w)
  have "n mod 10 < 10" by simp
  note c = of_char_digit [OF this]
  have "n mod (10 * 10 ^ w) = 10 * (n div 10 mod 10 ^ w) + n mod 10"
    by (rule mod_mult2_eq)
  then show ?case
    by (simp add: digits_val_append Suc.IH c Let_def algebra_simps)
qed

lemma time_of_day:
  fixes t :: nat
  shows "(((t div 86400000) * 24 + t div 3600000 mod 24) * 60 + t div 60000 mod 60) * 60000
           + (t div 1000 mod 60) * 1000 + t mod 1000 = t"
proof -
  define a b c where "a = t div 1000" and "b = a div 60" and "c = b div 60"
  have b: "t div 60000 = b" unfolding b_def a_def by (simp add: div_mult2_eq)
  have c: "t div 3600000 = c" unfolding c_def b_def a_def by (simp add: div_mult2_eq)
  have n: "t div 86400000 = c div 24" unfolding c_def b_def a_def by (simp add: div_mult2_eq)
  have 1: "c div 24 * 24 + c mod 24 = c" by simp
  have 2: "c * 60 + b mod 60 = b" unfolding c_def by simp
  have "(b * 60 + a mod 60) * 1000 = a * 1000" unfolding b_def by simp
  then have 3: "b * 60000 + a mod 60 * 1000 = a * 1000" by (simp add: algebra_simps)
  have 4: "a * 1000 + t mod 1000 = t" unfolding a_def by simp
  have "((c div 24 * 24 + c mod 24) * 60 + b mod 60) * 60000 + a mod 60 * 1000 + t mod 1000 = t"
    by (simp only: 1 2 3 4)
  then show ?thesis by (simp only: b c n a_def [symmetric])
qed

lemma iso_layout:
  assumes "length A = 4" "length B = 2" "length C = 2" "length D = 2" "length E = 2"
    "length F = 2" "length G = 3"
  defines "s \<equiv> A @ ''-'' @ B @ ''-'' @ C @ ''T'' @ D @ '':'' @ E @ '':'' @ F @ ''.'' @ G @ ''Z''"
  shows "length s = 24" "s ! 4 = CHR ''-''" "s ! 7 = CHR ''-''" "s ! 10 = CHR ''T''"
    "s ! 13 = CHR '':''" "s ! 16 = CHR '':''" "s ! 19 = CHR ''.''" "s ! 23 = CHR ''Z''"
    "num_at 0 4 s = digits_val 0 A" "num_at 5 2 s = digits_val 0 B"
    "num_at 8 2 s = digits_val 0 C" "num_at 11 2 s = digits_val 0 D"
    "num_at 14 2 s = digits_val 0 E" "num_at 17 2 s = digits_val 0 F"
    "num_at 20 3 s = digits_val 0 G"
  using assms(1-7) unfolding s_def num_at_def
  by (simp_all add: nth_append)

lemma days_before_year_mono: "y \<le> y' \<Longrightarrow> days_before_year y \<le> days_before_year y'"
proof (induction y' rule: nat_induct_at_least [consumes 1])
  case base
  show ?case by simp
next
  case (Suc n)
  then show ?case by (simp add: days_before_year_Suc)
qed

lemma days_before_year_1970: "days_before_year 1970 = 0"
  by (simp add: days_before_year_def)

lemma days_before_year_10000: "days_before_year 10000 = 2932897"
  by (simp add: days_before_year_def leaps_before_def)

lemma month_length_le: "month_length y m \<le> 31" "0 < month_length y m"
  by (simp_all add: month_length_def)

lemma mod_le_pred: "0 < k \<Longrightarrow> (x::nat) mod k \<le> k - 1"
  using mod_less_divisor [of k x] by linarith

text \<open>
  Up to the end of the year 9999, \<open>Date.parse\<close> reads the string of \<open>toISOString\<close>
  back as the instant it was made from, whatever the engine does with other strings.
\<close>

lemma Date_parse_toISOString:
  assumes "t < 253402300800000"
  shows "Date_parse engine (toISOString t) = Some (int t)"
proof -
  define n where "n = t div 86400000"
  obtain y doy where yf: "year_from 1970 n = (y, doy)" by (cases "year_from 1970 n")
  obtain m d where mf: "month_from y 1 doy = (m, d)" by (cases "month_from y 1 doy")
  from year_from_correct [OF yf]
  have y: "doy < year_length y" "days_before_year y + int doy = int n"
    by (simp_all add: days_before_year_1970)
  from month_from_correct [OF mf]
  have m: "1 \<le> m" "m \<le> 12" "days_before_month y m + d = doy"
    "d < month_length y m \<or> m = 12"
    by (simp_all add: days_before_month_def)
  have d: "d < month_length y m"
  proof (cases "m = 12")
    case True
    with m(3) y(1) days_before_month_12 [of y] show ?thesis by simp
  next
    case False
    with m(4) show ?thesis by simp
  qed
  with month_length_le(1) [of y m] have d31: "Suc d \<le> 31" by simp
  have "n < 2932897" using assms unfolding n_def by simp
  have y4: "y < 10000"
  proof (rule ccontr)
    assume "\<not> y < 10000"
    then have "days_before_year 10000 \<le> days_before_year y"
      by (intro days_before_year_mono) simp
    with y(2) \<open>n < 2932897\<close> show False by (simp add: days_before_year_10000)
  qed
  let ?A = "pad 4 y" and ?B = "pad 2 m" and ?C = "pad 2 (Suc d)"
  let ?D = "pad 2 (t div 3600000 mod 24)" and ?E = "pad 2 (t div 60000 mod 60)"
  let ?F = "pad 2 (t div 1000 mod 60)" and ?G = "pad 3 (t mod 1000)"
  have s: "toISOString t =
      ?A @ ''-'' @ ?B @ ''-'' @ ?C @ ''T'' @ ?D @ '':'' @ ?E @ '':'' @ ?F @ ''.'' @ ?G @ ''Z''"
    using yf mf y4 by (simp add: toISOString_def n_def)
  note lay = iso_layout [of ?A ?B ?C ?D ?E ?F ?G, OF length_pad length_pad length_pad
      length_pad length_pad length_pad length_pad, folded s]
  have v: "digits_val 0 ?A = Some y" "digits_val 0 ?B = Some m" "digits_val 0 ?C = Some (Suc d)"
    "digits_val 0 ?D = Some (t div 3600000 mod 24)" "digits_val 0 ?E = Some (t div 60000 mod 60)"
    "digits_val 0 ?F = Some (t div 1000 mod 60)" "digits_val 0 ?G = Some (t mod 1000)"
    using y4 m(2) d31 by (simp_all add: digits_val_pad)
  have fields: "iso_fields (toISOString t) =
      Some (y, m, Suc d, t div 3600000 mod 24, t div 60000 mod 60, t div 1000 mod 60, t mod 1000)"
    unfolding iso_fields_def by (simp add: lay v)
  have "int (days_before_month y m) + int (Suc d) - 1 = int doy"
    using m(3) by simp
  with y(2) have days: "days_before_year y + int (days_before_month y m) + int (Suc d) - 1 = int n"
    by simp
  have hb: "t div 3600000 mod 24 \<le> 23" "t div 60000 mod 60 \<le> 59" "t div 1000 mod 60 \<le> 59"
    using mod_le_pred [of 24 "t div 3600000"] mod_le_pred [of 60 "t div 60000"]
      mod_le_pred [of 60 "t div 1000"] by simp_all
  have "iso_time (y, m, Suc d, t div 3600000 mod 24, t div 60000 mod 60, t div 1000 mod 60,
        t mod 1000) =
      Some ((((days_before_year y + int (days_before_month y m) + int (Suc d) - 1) * 24
              + int (t div 3600000 mod 24)) * 60 + int (t div 60000 mod 60)) * 60000
            + int (t div 1000 mod 60) * 1000 + int (t mod 1000))"
    using m(1,2) d31 hb by simp
  also have "\<dots> =
      Some (((int n * 24 + int (t div 3600000 mod 24)) * 60 + int (t div 60000 mod 60)) * 60000
            + int (t div 1000 mod 60) * 1000 + int (t mod 1000))"
    by (simp only: days)
  also have "\<dots> = Some (int ((((t div 86400000) * 24 + t div 3600000 mod 24) * 60
      + t div 60000 mod 60) * 60000 + (t div 1000 mod 60) * 1000 + t mod 1000))"
    by (simp add: n_def)
  also have "\<dots> = Some (int t)" by (simp only: time_of_day)
  finally show ?thesis by (simp add: Date_parse_def fields)
qed

lemma previous_timestamp_written:
  assumes "files w (snapshotFile endpoint) = Some (JSON_stringify (snapshot_object t p))"
    and "t < 253402300800000"
  shows "previous_timestamp endpoint w = Some (int t)"
  using assms
  by (simp add: previous_timestamp_def stored_def JSON_stringify_def property_def
      Date_parse_toISOString)

section \<open>Properties of the numbers\<close>

lemma ilog2_bounds: "0 < n \<Longrightarrow> 2 ^ ilog2 n \<le> n \<and> n < 2 * 2 ^ ilog2 n"
proof (induction n rule: ilog2.induct)
  case (1 n)
  show ?case
  proof (cases "n < 2")
    case True
    with "1.prems" have "n = 1" by simp
    then show ?thesis by (simp add: ilog2.simps)
  next
    case False
    then have "0 < n div 2" by simp
    with "1.IH" False have ih: "2 ^ ilog2 (n div 2) \<le> n div 2" "n div 2 < 2 * 2 ^ ilog2 (n div 2)"
      by simp_all
    from False have k: "ilog2 n = Suc (ilog2 (n div 2))" by (simp add: ilog2.simps [of n])
    have "2 * (n div 2) \<le> n" "n < 2 * (n div 2) + 2" by presburger+
    with ih show ?thesis unfolding k by simp
  qed
qed

lemma exponent_bounds:
  assumes "0 < x"
  shows "2 powi exponent x \<le> x" and "x < 2 powi (exponent x + 1)"
proof -
  have "2 powi exponent x \<le> x \<and> x < 2 powi (exponent x + 1)"
  proof (cases "1 \<le> x")
    case True
    define n where "n = nat \<lfloor>x\<rfloor>"
    from True have "1 \<le> \<lfloor>x\<rfloor>" by linarith
    then have "0 < n" "real n = of_int \<lfloor>x\<rfloor>" by (simp_all add: n_def)
    then have n: "0 < n" "real n \<le> x" "x < real n + 1"
      by linarith+
    from ilog2_bounds [OF n(1)] have "2 ^ ilog2 n \<le> n" "Suc n \<le> 2 * 2 ^ ilog2 n"
      by simp_all
    then have "real (2 ^ ilog2 n) \<le> real n" "real (Suc n) \<le> real (2 * 2 ^ ilog2 n)"
      by (simp_all only: of_nat_le_iff)
    then have "(2::real) ^ ilog2 n \<le> real n" "real n + 1 \<le> 2 * 2 ^ ilog2 n"
      by simp_all
    moreover from True have "exponent x = int (ilog2 n)" by (simp add: exponent_def n_def)
    then have "2 powi exponent x = (2::real) ^ ilog2 n"
      "2 powi (exponent x + 1) = (2::real) * 2 ^ ilog2 n"
      by (simp_all add: power_int_add power_int_of_nat)
    ultimately show ?thesis using n(2,3) by linarith
  next
    case False
    define y where "y = 1 / x"
    define m where "m = nat \<lceil>y\<rceil> - 1"
    from False assms have y: "1 < y" by (simp add: y_def)
    then have c: "2 \<le> \<lceil>y\<rceil>" by linarith
    then have "m = nat (\<lceil>y\<rceil> - 1)" by (simp add: m_def nat_diff_distrib)
    with c have "0 < m" "real m + 1 = of_int \<lceil>y\<rceil>" by simp_all
    then have m: "0 < m" "real m < y" "y \<le> real m + 1"
      by linarith+
    from ilog2_bounds [OF m(1)] have "2 ^ ilog2 m \<le> m" "Suc m \<le> 2 * 2 ^ ilog2 m"
      by simp_all
    then have "real (2 ^ ilog2 m) \<le> real m" "real (Suc m) \<le> real (2 * 2 ^ ilog2 m)"
      by (simp_all only: of_nat_le_iff)
    then have "(2::real) ^ ilog2 m \<le> real m" "real m + 1 \<le> 2 * 2 ^ ilog2 m"
      by simp_all
    with m have b: "2 ^ ilog2 m < y" "y \<le> 2 * 2 ^ ilog2 m" by linarith+
    from False have e: "exponent x = - int (ilog2 m) - 1" by (simp add: exponent_def m_def y_def)
    have x: "x = 1 / y" using assms by (simp add: y_def)
    have lo: "1 / (2 * 2 ^ ilog2 m) \<le> x"
      unfolding x using b(2) y by (intro divide_left_mono) simp_all
    have hi: "x < 1 / 2 ^ ilog2 m"
      unfolding x using b(1) y by (intro divide_strict_left_mono) simp_all
    have "2 powi (exponent x) = 1 / (2 * 2 ^ ilog2 m :: real)"
      unfolding e by (simp add: power_int_diff power_int_minus power_int_of_nat field_simps)
    moreover have "2 powi (exponent x + 1) = 1 / (2 ^ ilog2 m :: real)"
      unfolding e by (simp add: power_int_minus power_int_of_nat field_simps)
    ultimately show ?thesis using lo hi by simp
  qed
  then show "2 powi exponent x \<le> x" and "x < 2 powi (exponent x + 1)" by simp_all
qed

lemma exponent_mono:
  assumes "0 < x" "x \<le> y"
  shows "exponent x \<le> exponent y"
proof (rule ccontr)
  assume "\<not> exponent x \<le> exponent y"
  then have "exponent y + 1 \<le> exponent x" by simp
  then have "(2::real) powi (exponent y + 1) \<le> 2 powi exponent x"
    by (intro power_int_increasing) simp_all
  moreover from assms have "y < 2 powi (exponent y + 1)" "2 powi exponent x \<le> x"
    by (simp_all add: exponent_bounds)
  ultimately show False using assms by linarith
qed

lemma round_half_even_bounds:
  "real_of_int (round_half_even q) \<le> q + 1 / 2" "q - 1 / 2 \<le> real_of_int (round_half_even q)"
  by (simp_all add: round_half_even_def Let_def) linarith+

lemma round_half_even_floor:
  "round_half_even q = \<lfloor>q\<rfloor> \<or> round_half_even q = \<lfloor>q\<rfloor> + 1"
proof -
  define f where "f = \<lfloor>q\<rfloor>"
  define r where "r = q - of_int f"
  have "round_half_even q =
      (if r < 1 / 2 then f else if 1 / 2 < r then f + 1 else if even f then f else f + 1)"
    by (simp only: round_half_even_def Let_def f_def r_def)
  then show ?thesis unfolding f_def [symmetric] by presburger
qed

lemma round_half_even_of_int: "round_half_even (of_int n) = n"
  by (simp add: round_half_even_def)

lemma round_half_even_mono:
  assumes "q \<le> r"
  shows "round_half_even q \<le> round_half_even r"
proof (cases "\<lfloor>q\<rfloor> = \<lfloor>r\<rfloor>")
  case True
  with assms show ?thesis
    by (auto simp: round_half_even_def Let_def)
next
  case False
  with assms have "\<lfloor>q\<rfloor> + 1 \<le> \<lfloor>r\<rfloor>"
    using floor_mono [OF assms] by linarith
  moreover have "round_half_even q \<le> \<lfloor>q\<rfloor> + 1" "\<lfloor>r\<rfloor> \<le> round_half_even r"
    using round_half_even_floor [of q] round_half_even_floor [of r] by auto
  ultimately show ?thesis by linarith
qed

lemma round_double_pos:
  assumes "0 < x"
  shows "round_double x =
    of_int (round_half_even (x / 2 powi (exponent x - 52))) * 2 powi (exponent x - 52)"
  using assms by (simp add: round_double_def Let_def)

lemma round_double_minus: "round_double (- x) = - round_double x"
  by (simp add: round_double_def Let_def sgn_minus)

lemma round_double_zero: "round_double 0 = 0"
  by (simp add: round_double_def)

lemma scaled_binade:
  "2 powi e / 2 powi (e - 52) = (2::real) ^ 52" "2 powi (e + 1) / 2 powi (e - 52) = (2::real) ^ 53"
proof -
  have "(2::real) powi e = 2 powi (e - 52) * 2 powi 52"
    using power_int_add [of "2::real" "e - 52" 52] by simp
  then show "2 powi e / 2 powi (e - 52) = (2::real) ^ 52" by simp
  have "(2::real) powi (e + 1) = 2 powi (e - 52) * 2 powi 53"
    using power_int_add [of "2::real" "e - 52" 53] by (simp add: add.commute)
  then show "2 powi (e + 1) / 2 powi (e - 52) = (2::real) ^ 53" by simp
qed

lemma round_double_binade:
  assumes "0 < x"
  shows "2 powi exponent x \<le> round_double x" and "round_double x \<le> 2 powi (exponent x + 1)"
proof -
  define e where "e = exponent x"
  define u :: real where "u = 2 powi (e - 52)"
  have u: "0 < u" by (simp add: u_def zero_less_power_int)
  have rd: "round_double x = of_int (round_half_even (x / u)) * u"
    using assms by (simp add: round_double_pos e_def u_def)
  from exponent_bounds [OF assms] have "2 powi e \<le> x" "x \<le> 2 powi (e + 1)"
    by (simp_all add: e_def)
  with u have "2 powi e / u \<le> x / u" "x / u \<le> 2 powi (e + 1) / u"
    by (simp_all add: divide_right_mono)
  then have "of_int (2 ^ 52) \<le> x / u" "x / u \<le> of_int (2 ^ 53)"
    by (simp_all add: u_def scaled_binade)
  then have "round_half_even (of_int (2 ^ 52)) \<le> round_half_even (x / u)"
    "round_half_even (x / u) \<le> round_half_even (of_int (2 ^ 53))"
    by (simp_all only: round_half_even_mono)
  then have "2 ^ 52 \<le> round_half_even (x / u)" "round_half_even (x / u) \<le> 2 ^ 53"
    unfolding round_half_even_of_int by simp_all
  then have "real_of_int (2 ^ 52) \<le> of_int (round_half_even (x / u))"
    "real_of_int (round_half_even (x / u)) \<le> of_int (2 ^ 53)"
    by (simp_all only: of_int_le_iff)
  then have "(2::real) ^ 52 \<le> of_int (round_half_even (x / u))"
    "of_int (round_half_even (x / u)) \<le> (2::real) ^ 53"
    by simp_all
  with u have "2 ^ 52 * u \<le> round_double x" "round_double x \<le> 2 ^ 53 * u"
    unfolding rd by (simp_all add: mult_right_mono)
  moreover have "2 ^ 52 * u = 2 powi e" "2 ^ 53 * u = 2 powi (e + 1)"
    using scaled_binade [of e] u by (simp_all add: u_def field_simps)
  ultimately show "2 powi exponent x \<le> round_double x"
    and "round_double x \<le> 2 powi (exponent x + 1)"
    by (simp_all add: e_def)
qed

lemma round_double_mono_pos:
  assumes "0 < x" "x \<le> y"
  shows "round_double x \<le> round_double y"
proof (cases "exponent x = exponent y")
  case True
  define u :: real where "u = 2 powi (exponent y - 52)"
  have u: "0 < u" by (simp add: u_def zero_less_power_int)
  with assms have "x / u \<le> y / u" by (simp add: divide_right_mono)
  then have "round_half_even (x / u) \<le> round_half_even (y / u)"
    by (rule round_half_even_mono)
  then have "real_of_int (round_half_even (x / u)) * u \<le> real_of_int (round_half_even (y / u)) * u"
    using u by (simp add: mult_right_mono)
  with assms True show ?thesis by (simp add: round_double_pos u_def)
next
  case False
  with exponent_mono [OF assms] have "exponent x + 1 \<le> exponent y" by simp
  then have "(2::real) powi (exponent x + 1) \<le> 2 powi exponent y"
    by (intro power_int_increasing) simp_all
  moreover from assms have "round_double x \<le> 2 powi (exponent x + 1)"
    "2 powi exponent y \<le> round_double y"
    by (simp_all add: round_double_binade)
  ultimately show ?thesis by linarith
qed

lemma round_double_pos_iff: "0 < x \<Longrightarrow> 0 < round_double x"
  by (rule less_le_trans [OF zero_less_power_int round_double_binade(1)]) simp_all

lemma round_double_mono:
  assumes "x \<le> y"
  shows "round_double x \<le> round_double y"
proof -
  consider "0 < x" | "x \<le> 0" "0 \<le> y" | "y < 0" by linarith
  then show ?thesis
  proof cases
    case 1
    then show ?thesis using assms by (rule round_double_mono_pos)
  next
    case 2
    have "round_double x \<le> 0"
    proof (cases "x = 0")
      case True
      then show ?thesis by (simp add: round_double_zero)
    next
      case False
      with 2 have "0 < - x" by simp
      from round_double_pos_iff [OF this] show ?thesis by (simp add: round_double_minus)
    qed
    moreover have "0 \<le> round_double y"
    proof (cases "y = 0")
      case True
      then show ?thesis by (simp add: round_double_zero)
    next
      case False
      with 2 have "0 < y" by simp
      from round_double_pos_iff [OF this] show ?thesis by simp
    qed
    ultimately show ?thesis by linarith
  next
    case 3
    with assms have "0 < - y" "- y \<le> - x" by simp_all
    from round_double_mono_pos [OF this] show ?thesis by (simp add: round_double_minus)
  qed
qed

lemma round_double_error_pos:
  assumes "0 < x"
  shows "\<bar>round_double x - x\<bar> \<le> x / 2 ^ 53"
proof -
  define e where "e = exponent x"
  define u :: real where "u = 2 powi (e - 52)"
  have u: "0 < u" by (simp add: u_def zero_less_power_int)
  have rd: "round_double x = of_int (round_half_even (x / u)) * u"
    using assms by (simp add: round_double_pos e_def u_def)
  from round_half_even_bounds [of "x / u"]
  have "\<bar>real_of_int (round_half_even (x / u)) - x / u\<bar> \<le> 1 / 2" by linarith
  then have "\<bar>real_of_int (round_half_even (x / u)) - x / u\<bar> * u \<le> 1 / 2 * u"
    using u by (intro mult_right_mono) simp_all
  moreover have "round_double x - x = (real_of_int (round_half_even (x / u)) - x / u) * u"
    using u unfolding rd by (simp add: left_diff_distrib)
  then have "\<bar>real_of_int (round_half_even (x / u)) - x / u\<bar> * u = \<bar>round_double x - x\<bar>"
    using u by (simp add: abs_mult)
  ultimately have "\<bar>round_double x - x\<bar> \<le> u / 2" by simp
  moreover have "u * 2 ^ 52 = 2 powi e"
    using scaled_binade(1) [of e] u by (simp add: u_def field_simps)
  moreover have "2 powi e \<le> x" using exponent_bounds(1) [OF assms] by (simp add: e_def)
  ultimately show ?thesis by (simp add: field_simps)
qed

lemma round_double_error: "\<bar>round_double x - x\<bar> \<le> \<bar>x\<bar> / 2 ^ 53"
proof -
  consider "0 < x" | "x = 0" | "0 < - x" by linarith
  then show ?thesis
  proof cases
    case 1
    with round_double_error_pos [OF 1] show ?thesis by simp
  next
    case 2
    then show ?thesis by (simp add: round_double_zero)
  next
    case 3
    with round_double_error_pos [OF 3] show ?thesis
      by (simp add: round_double_minus)
  qed
qed


lemma round_double_exact:
  assumes "0 < x" "x / 2 powi (exponent x - 52) = of_int k"
  shows "round_double x = x"
proof -
  have "(0::real) < 2 powi (exponent x - 52)" by (simp add: zero_less_power_int)
  then have "x = of_int k * 2 powi (exponent x - 52)"
    using assms(2) by (simp add: field_simps)
  moreover have "round_double x = of_int k * 2 powi (exponent x - 52)"
    by (simp add: round_double_pos [OF assms(1)] assms(2) round_half_even_of_int)
  ultimately show ?thesis by simp
qed

lemma round_double_nat:
  assumes "0 < n" "n \<le> 2 ^ 53"
  shows "round_double (real_of_int n) = real_of_int n"
proof -
  define x where "x = real_of_int n"
  define e where "e = exponent x"
  from assms have x: "0 < x" "x \<le> 2 ^ 53"
    unfolding x_def by (simp, metis of_int_le_iff of_int_numeral of_int_power)
  from exponent_bounds [OF x(1)] have b: "2 powi e \<le> x" "x < 2 powi (e + 1)"
    by (simp_all add: e_def)
  have "\<exists>k. x / 2 powi (e - 52) = real_of_int k"
  proof (cases "e \<le> 52")
    case True
    then have "(2::real) powi (52 - e) = 2 ^ nat (52 - e)"
      by (simp add: power_int_def)
    moreover have "x / 2 powi (e - 52) = x * 2 powi (52 - e)"
      using power_int_minus [of "2::real" "e - 52"] by (simp add: field_simps)
    ultimately have "x / 2 powi (e - 52) = real_of_int (n * 2 ^ nat (52 - e))"
      by (simp add: x_def)
    then show ?thesis by blast
  next
    case False
    then have "53 \<le> e" by simp
    then have "(2::real) powi 53 \<le> 2 powi e" by (intro power_int_increasing) simp_all
    with b(1) x(2) have x53: "x = 2 ^ 53" by simp
    have "e = 53"
    proof (rule ccontr)
      assume "e \<noteq> 53"
      with \<open>53 \<le> e\<close> have "54 \<le> e" by simp
      then have "(2::real) powi 54 \<le> 2 powi e" by (intro power_int_increasing) simp_all
      with b(1) x53 show False by simp
    qed
    with x53 have "x / 2 powi (e - 52) = real_of_int (2 ^ 52)" by simp
    then show ?thesis by blast
  qed
  then obtain k where "x / 2 powi (exponent x - 52) = real_of_int k"
    by (auto simp: e_def)
  from round_double_exact [OF x(1) this] show ?thesis by (simp add: x_def)
qed

lemma round_double_int:
  assumes "\<bar>n\<bar> \<le> 2 ^ 53"
  shows "round_double (real_of_int n) = real_of_int n"
proof -
  consider "0 < n" | "n = 0" | "0 < - n" by linarith
  then show ?thesis
  proof cases
    case 1
    with assms show ?thesis by (intro round_double_nat) simp_all
  next
    case 2
    then show ?thesis by (simp add: round_double_zero)
  next
    case 3
    with assms have "round_double (real_of_int (- n)) = real_of_int (- n)"
      by (intro round_double_nat) simp_all
    then show ?thesis by (simp add: round_double_minus)
  qed
qed

text \<open>The two facts the policy rests on.\<close>

lemma quotient_not_below:
  assumes "round_double d = d" "\<bar>n\<bar> \<le> 2 ^ 53" "d * 60000 \<le> real_of_int n"
  shows "d \<le> round_double (round_double (real_of_int n) / 60000)"
proof -
  from assms(3) have "d \<le> real_of_int n / 60000" by (simp add: field_simps)
  from round_double_mono [OF this] show ?thesis
    by (simp add: assms(1) round_double_int [OF assms(2)])
qed

lemma quotient_below:
  assumes "\<bar>n\<bar> < 2 ^ 53" "real_of_int n + 1 \<le> d * 60000"
  shows "round_double (round_double (real_of_int n) / 60000) < d"
proof -
  define x where "x = real_of_int n / 60000"
  from assms(1) have "\<bar>real_of_int n\<bar> < 2 ^ 53"
    by (metis of_int_abs of_int_less_iff of_int_numeral of_int_power)
  then have "\<bar>x\<bar> / 2 ^ 53 < 1 / 60000" by (simp add: x_def field_simps)
  with round_double_error [of x] have "round_double x < x + 1 / 60000" by linarith
  also have "\<dots> = (real_of_int n + 1) / 60000" by (simp add: x_def field_simps)
  also have "\<dots> \<le> d" using assms(2) by (simp add: field_simps)
  finally have "round_double x < d" .
  moreover from assms(1) have "round_double (real_of_int n) = real_of_int n"
    by (intro round_double_int) simp
  ultimately show ?thesis by (simp add: x_def)
qed

text \<open>The quotient the policy compares with the cooldown.\<close>

lemma stale_by_rounding:
  assumes "is_double d" "\<bar>int now - t0\<bar> \<le> 9007199254740991"
    and "d * 60000 \<le> real now - real_of_int t0"
  shows "\<not> number_less (Some (number_divide (number_minus (real now) (real_of_int t0)) 60000)) d"
proof -
  from assms(1) have "round_double d = d" by (simp add: is_double_def)
  moreover from assms(2) have "\<bar>int now - t0\<bar> \<le> 2 ^ 53" by simp
  moreover from assms(3) have "d * 60000 \<le> real_of_int (int now - t0)" by simp
  ultimately have "d \<le> round_double (round_double (real_of_int (int now - t0)) / 60000)"
    by (rule quotient_not_below)
  then show ?thesis
    by (simp add: number_divide_def number_minus_def)
qed

lemma fresh_by_rounding:
  assumes "\<bar>int now - t0\<bar> \<le> 9007199254740991"
    and "real now - real_of_int t0 + 1 \<le> d * 60000"
  shows "number_less (Some (number_divide (number_minus (real now) (real_of_int t0)) 60000)) d"
proof -
  from assms(1) have "\<bar>int now - t0\<bar> < 2 ^ 53" by simp
  moreover from assms(2) have "real_of_int (int now - t0) + 1 \<le> d * 60000" by simp
  ultimately have "round_double (round_double (real_of_int (int now - t0)) / 60000) < d"
    by (rule quotient_below)
  then show ?thesis
    by (simp add: number_divide_def number_minus_def)
qed

lemma is_double_0: "is_double 0"
  by (simp add: is_double_def round_double_zero)

lemma is_double_10: "is_double 10"
  by (simp add: is_double_def round_double_def exponent_def ilog2.simps round_half_even_def
      Let_def power_int_minus)

lemma is_double_a_tenth: "is_double a_tenth"
  by (simp add: is_double_def a_tenth_def round_double_def exponent_def ilog2.simps
      round_half_even_def Let_def power_int_minus)

lemma a_tenth_above: "6000 / 60000 < a_tenth" "0 < a_tenth"
  by (simp_all add: a_tenth_def)

text \<open>
  Six seconds are a tenth of a minute, and the quotient is rounded to the double nearest
  to 1/10. Beyond \<open>2 ^ 53\<close> an integer need not be a double.
\<close>

lemma six_seconds_in_minutes: "number_divide (number_minus 1704067206000 1704067200000) 60000 = a_tenth"
  by (simp add: number_divide_def number_minus_def a_tenth_def round_double_def exponent_def
      ilog2.simps round_half_even_def Let_def power_int_minus)

lemma beyond_safe_integers: "number_minus 9007199254740993 0 = 9007199254740992"
  by (simp add: number_minus_def round_double_def exponent_def ilog2.simps round_half_even_def
      Let_def power_int_minus)

lemma is_double_far_cooldown: "is_double far_cooldown"
  by (simp add: is_double_def far_cooldown_def round_double_def exponent_def ilog2.simps
      round_half_even_def Let_def power_int_minus)

lemma far_elapsed:
  "number_divide (number_minus 367199254745625 (- 8640000000000000)) 60000 < far_cooldown"
  "far_cooldown * 60000 = 367199254745625 - (- 8640000000000000)"
  by (simp_all add: number_divide_def number_minus_def far_cooldown_def round_double_def
      exponent_def ilog2.simps round_half_even_def Let_def power_int_minus)

section \<open>Properties of the platform calls\<close>

lemma elapse_fields:
  "files (elapse w) = files w" "dirs (elapse w) = dirs w" "writes (elapse w) = writes w"
  "requests (elapse w) = requests w" "remote (elapse w) = remote w"
  "API_TOKEN (elapse w) = API_TOKEN w" "engine_date (elapse w) = engine_date w"
  "delay (elapse w) = delay w" "steps (elapse w) = Suc (steps w)"
  "clock (elapse w) = clock w + delay w (steps w)"
  by (simp_all add: elapse_def)

lemma answer_elapse: "answer endpoint (elapse w) = answer endpoint w"
  by (simp add: answer_def bearer_def elapse_fields)

lemma bearer_elapse: "bearer u (elapse w) = bearer u w"
  by (simp add: bearer_def elapse_fields)

lemma stored_elapse: "stored endpoint (elapse w) = stored endpoint w"
  by (simp add: stored_def elapse_fields)

lemma stored_SomeD:
  assumes "stored endpoint w = Some s"
  obtains c v where "files w (snapshotFile endpoint) = Some c"
    and "JSON_parse c = Inr v" and "destructure v = Inr s"
  using assms by (auto simp: stored_def split: option.splits sum.splits)

lemma snapshotFile_upcoming:
  "snapshotFile ''/matches/upcoming'' = ''snapshot__matches/upcoming.json''"
  by (simp add: snapshotFile_def)

lemma parse_2024: "Date_parse e ''2024-01-01T00:00:00.000Z'' = Some 1704067200000"
  by code_simp

lemma iso_2024: "toISOString 1704067200000 = ''2024-01-01T00:00:00.000Z''"
  by code_simp

lemma stored_old_snapshot:
  "stored ''/matches/upcoming'' (sample_world (Some old_snapshot) now ms reply) =
     Some \<lparr>lastFetched = Some (JStr ''2024-01-01T00:00:00.000Z''), data = Some old_payload\<rparr>"
  by (simp add: stored_def snapshotFile_upcoming sample_world_def old_snapshot_def property_def)

lemma ok_200: "ok \<lparr>resp_status = 200, resp_statusText = ''OK'', resp_body = Json new_payload\<rparr>"
  by (simp add: ok_def)

lemma sample_world_fields:
  "files (sample_world file now ms reply) ''snapshot__matches/upcoming.json'' = file"
  "writes (sample_world file now ms reply) = []"
  "requests (sample_world file now ms reply) = []"
  "clock (sample_world file now ms reply) = now"
  "delay (sample_world file now ms reply) k = ms"
  "steps (sample_world file now ms reply) = 0"
  "API_TOKEN (sample_world file now ms reply) = ''token''"
  "engine_date (sample_world file now ms reply) = (\<lambda>s. None)"
  by (simp_all add: sample_world_def)

lemma answer_sample: "answer endpoint (sample_world file now ms reply) = reply"
  by (simp add: answer_def sample_world_def)

lemma iso_2024_10: "toISOString 1704067800000 = ''2024-01-01T00:10:00.000Z''"
  by code_simp

lemma iso_2024_06: "toISOString 1704067206000 = ''2024-01-01T00:00:06.000Z''"
  by code_simp

lemma fetch_unfold:
  "fetch (BASE_URL @ endpoint) w =
     (answer endpoint w, elapse (w\<lparr>requests := requests w @ [bearer (BASE_URL @ endpoint) w]\<rparr>))"
  by (simp add: fetch_def answer_def Let_def)

lemma saveSnapshot_fields:
  "files (saveSnapshot d f w) = (files w)(f \<mapsto> JSON_stringify (snapshot_object (clock w) d))"
  "writes (saveSnapshot d f w) = writes w @ [(f, JSON_stringify (snapshot_object (clock w) d))]"
  "requests (saveSnapshot d f w) = requests w"
  "remote (saveSnapshot d f w) = remote w"
  "API_TOKEN (saveSnapshot d f w) = API_TOKEN w"
  "engine_date (saveSnapshot d f w) = engine_date w"
  "clock (saveSnapshot d f w) = clock (elapse (elapse w))"
  by (simp_all add: saveSnapshot_def ensureDirectoryExists_def mkdir_def writeTextFile_def
      elapse_fields Let_def)

lemma saveSnapshot_reduced_fields:
  "files (saveSnapshot_reduced d f w) = (files w)(f \<mapsto> JSON_stringify d)"
  "writes (saveSnapshot_reduced d f w) = writes w @ [(f, JSON_stringify d)]"
  "requests (saveSnapshot_reduced d f w) = requests w"
  by (simp_all add: saveSnapshot_reduced_def ensureDirectoryExists_def mkdir_def writeTextFile_def
      elapse_fields Let_def)

text \<open>The four ways a fetch from the remote service ends.\<close>

lemma fetchEsportsData_rejected:
  assumes "answer endpoint w = Rejected"
  shows "fetchEsportsData endpoint False w =
     (Inl TypeError, elapse (w\<lparr>requests := requests w @ [bearer (BASE_URL @ endpoint) w]\<rparr>))"
  using assms by (simp add: fetchEsportsData_def fetch_unfold)

lemma fetchEsportsData_not_ok:
  assumes "answer endpoint w = Resolved r" "\<not> ok r"
  shows "fetchEsportsData endpoint False w =
     (Inr None, elapse (w\<lparr>requests := requests w @ [bearer (BASE_URL @ endpoint) w]\<rparr>))"
  using assms by (simp add: fetchEsportsData_def fetch_unfold)

lemma fetchEsportsData_bad_body:
  assumes "answer endpoint w = Resolved r" "ok r" "JSON_parse (resp_body r) = Inl e"
  shows "fetchEsportsData endpoint False w =
     (Inl e, elapse (elapse (w\<lparr>requests := requests w @ [bearer (BASE_URL @ endpoint) w]\<rparr>)))"
  using assms by (simp add: fetchEsportsData_def fetch_unfold response_json_def)

lemma fetchEsportsData_ok:
  assumes "answer endpoint w = Resolved r" "ok r" "JSON_parse (resp_body r) = Inr p"
  shows "fetchEsportsData endpoint False w =
     (Inr (Some \<lparr>lastFetched = Some (JStr (toISOString (clock (saveSnapshot p (snapshotFile endpoint)
          (elapse (elapse (w\<lparr>requests := requests w @ [bearer (BASE_URL @ endpoint) w]\<rparr>))))))),
         data = Some p\<rparr>),
      saveSnapshot p (snapshotFile endpoint)
          (elapse (elapse (w\<lparr>requests := requests w @ [bearer (BASE_URL @ endpoint) w]\<rparr>))))"
  using assms by (simp add: fetchEsportsData_def fetch_unfold response_json_def Let_def)

lemma fetchEsportsData_one_request:
  "requests (snd (fetchEsportsData endpoint False w)) = requests w @ [bearer (BASE_URL @ endpoint) w]"
proof (cases "answer endpoint w")
  case Rejected
  then show ?thesis by (simp add: fetchEsportsData_rejected elapse_fields)
next
  case (Resolved r)
  show ?thesis
  proof (cases "ok r")
    case False
    with Resolved show ?thesis by (simp add: fetchEsportsData_not_ok elapse_fields)
  next
    case True
    show ?thesis
    proof (cases "JSON_parse (resp_body r)")
      case (Inl e)
      with Resolved True show ?thesis by (simp add: fetchEsportsData_bad_body elapse_fields)
    next
      case (Inr p)
      with Resolved True show ?thesis
        by (simp add: fetchEsportsData_ok saveSnapshot_fields elapse_fields)
    qed
  qed
qed

text \<open>When the policy goes to the remote service.\<close>

lemma fetchIfNeeded_absent:
  assumes "files w (snapshotFile endpoint) = None"
  shows "fetchIfNeeded endpoint d w = fetchEsportsData endpoint False (elapse w)"
  using assms by (simp add: fetchIfNeeded_def exists_file_def)

lemma fetchIfNeeded_stale:
  assumes "stored endpoint w = Some s"
    and "\<not> number_less (elapsedMinutes (elapse (elapse w)) (lastFetched s)) d"
  shows "fetchIfNeeded endpoint d w = fetchEsportsData endpoint False (elapse (elapse w))"
proof -
  from assms(1) obtain c v where "files w (snapshotFile endpoint) = Some c"
    and "JSON_parse c = Inr v" and "destructure v = Inr s"
    by (rule stored_SomeD)
  with assms(2) show ?thesis
    by (simp add: fetchIfNeeded_def exists_file_def readTextFile_def elapse_fields)
qed

lemma fetchIfNeeded_recent:
  assumes "stored endpoint w = Some s"
    and "number_less (elapsedMinutes (elapse (elapse w)) (lastFetched s)) d"
  shows "fetchIfNeeded endpoint d w = (Inr (Some s), elapse (elapse w))"
proof -
  from assms(1) obtain c v where "files w (snapshotFile endpoint) = Some c"
    and "JSON_parse c = Inr v" and "destructure v = Inr s"
    by (rule stored_SomeD)
  with assms(2) show ?thesis
    by (simp add: fetchIfNeeded_def exists_file_def readTextFile_def elapse_fields)
qed

lemma fetchEsportsData_ok_files:
  assumes "answer endpoint w = Resolved r" "ok r" "JSON_parse (resp_body r) = Inr p"
  shows "\<exists>t t'. fst (fetchEsportsData endpoint False w) =
           Inr (Some \<lparr>lastFetched = Some (JStr (toISOString t')), data = Some p\<rparr>) \<and>
         files (snd (fetchEsportsData endpoint False w)) =
           (files w)(snapshotFile endpoint \<mapsto> JSON_stringify (snapshot_object t p)) \<and>
         writes (snd (fetchEsportsData endpoint False w)) =
           writes w @ [(snapshotFile endpoint, JSON_stringify (snapshot_object t p))] \<and>
         clock w \<le> t \<and> t \<le> t'"
  apply (rule exI [of _ "clock (elapse (elapse w))"])
  apply (rule exI [of _ "clock (elapse (elapse (elapse (elapse w))))"])
  using assms
  by (simp add: fetchEsportsData_ok saveSnapshot_fields elapse_fields)

lemma fetchEsportsData_cached:
  assumes "stored endpoint w = Some s"
  shows "fetchEsportsData endpoint True w = (Inr (Some s), elapse (elapse w))"
proof -
  from assms obtain c v where "files w (snapshotFile endpoint) = Some c"
    and "JSON_parse c = Inr v" and "destructure v = Inr s"
    by (rule stored_SomeD)
  then show ?thesis
    by (simp add: fetchEsportsData_def exists_file_def readTextFile_def elapse_fields)
qed

lemma fetchEsportsData_absent:
  assumes "files w (snapshotFile endpoint) = None"
  shows "fetchEsportsData endpoint True w = fetchEsportsData endpoint False (elapse w)"
  using assms by (simp add: fetchEsportsData_def exists_file_def)

lemma fetchEsportsData_reduced_rejected:
  assumes "answer endpoint w = Rejected"
  shows "fetchEsportsData_reduced endpoint False w =
     (Inl TypeError, elapse (w\<lparr>requests := requests w @ [bearer (BASE_URL @ endpoint) w]\<rparr>))"
  using assms by (simp add: fetchEsportsData_reduced_def fetch_unfold)

lemma fetchEsportsData_reduced_not_ok:
  assumes "answer endpoint w = Resolved r" "\<not> ok r"
  shows "fetchEsportsData_reduced endpoint False w =
     (Inr JNull, elapse (w\<lparr>requests := requests w @ [bearer (BASE_URL @ endpoint) w]\<rparr>))"
  using assms by (simp add: fetchEsportsData_reduced_def fetch_unfold)

lemma fetchEsportsData_reduced_cached:
  assumes "files w (snapshotFile endpoint) = Some c" "JSON_parse c = Inr v"
  shows "fetchEsportsData_reduced endpoint True w = (Inr v, elapse (elapse w))"
  using assms
  by (simp add: fetchEsportsData_reduced_def exists_file_def readTextFile_def elapse_fields)

lemma stored_saveSnapshot:
  "stored key (saveSnapshot d (snapshotFile key) w) =
     Some \<lparr>lastFetched = Some (JStr (toISOString (clock w))), data = Some d\<rparr>"
  by (simp add: stored_def saveSnapshot_fields JSON_stringify_def property_def)

lemma not_ok_503:
  "\<not> ok \<lparr>resp_status = 503, resp_statusText = ''Service Unavailable'',
           resp_body = NotJson ''unavailable''\<rparr>"
  by (simp add: ok_def)

text \<open>Whatever path the policy takes, a fetch that fails leaves the files as they are.\<close>

lemma fetchIfNeeded_frame:
  assumes "answer endpoint w = Rejected \<or> (answer endpoint w = Resolved r \<and> \<not> ok r)"
  shows "writes (snd (fetchIfNeeded endpoint d w)) = writes w \<and>
         files (snd (fetchIfNeeded endpoint d w)) = files w"
proof -
  have fresh: "writes (snd (fetchEsportsData endpoint False w')) = writes w \<and>
      files (snd (fetchEsportsData endpoint False w')) = files w"
    if "w' = elapse w \<or> w' = elapse (elapse w)" for w'
  proof -
    from that have a: "answer endpoint w' = answer endpoint w"
      and f: "writes w' = writes w" "files w' = files w"
      by (auto simp: answer_elapse elapse_fields)
    from assms show ?thesis
    proof
      assume "answer endpoint w = Rejected"
      with a show ?thesis by (simp add: fetchEsportsData_rejected elapse_fields f)
    next
      assume "answer endpoint w = Resolved r \<and> \<not> ok r"
      with a show ?thesis by (simp add: fetchEsportsData_not_ok elapse_fields f)
    qed
  qed
  show ?thesis
  proof (cases "files w (snapshotFile endpoint)")
    case None
    then show ?thesis by (simp add: fetchIfNeeded_absent fresh)
  next
    case (Some c)
    show ?thesis
    proof (cases "JSON_parse c")
      case (Inl e)
      with Some show ?thesis
        by (simp add: fetchIfNeeded_def exists_file_def readTextFile_def elapse_fields)
    next
      case (Inr v)
      show ?thesis
      proof (cases "destructure v")
        case (Inl e)
        with Some Inr show ?thesis
          by (simp add: fetchIfNeeded_def exists_file_def readTextFile_def elapse_fields)
      next
        case inr: (Inr s)
        with Some Inr show ?thesis
          by (simp add: fetchIfNeeded_def exists_file_def readTextFile_def elapse_fields fresh)
      qed
    qed
  qed
qed

text \<open>One round of the main menu when the snapshot file holds a payload to show.\<close>

lemma mainMenu_cached:
  assumes "stored ''/matches/upcoming'' w = Some s" "data s = Some m"
    and "\<not> falsy m" "\<not> length_is_zero m"
  shows "mainMenu [] w = ((None, []), elapse (elapse w))"
    and "mainMenu (Exit # rest) w = ((None, [(Exit, [])]), elapse (elapse w))"
    and "a \<noteq> Exit \<Longrightarrow> a \<noteq> FetchNewData \<Longrightarrow> mainMenu (a # rest) w =
          (case mainMenu rest (elapse (elapse w)) of
             ((r, served), w3) \<Rightarrow> ((r, (a, listed a m) # served), w3))"
    and "mainMenu (FetchNewData # rest) w =
          (case fetchIfNeeded ''/matches/upcoming'' 10 (elapse (elapse w)) of
             (Inl e, w2) \<Rightarrow> ((Some e, [(FetchNewData, [])]), w2)
           | (Inr newResponse, w2) \<Rightarrow>
               (case mainMenu rest w2 of
                  ((r, served), w3) \<Rightarrow> ((r, (FetchNewData, []) # served), w3)))"
  using assms
  by (simp_all add: mainMenu.simps [of "[]"] mainMenu.simps [of "_ # _"]
      fetchEsportsData_cached split: action.splits)

lemma mainMenu_browse:
  assumes "FetchNewData \<notin> set script"
    and "stored ''/matches/upcoming'' w = Some s" "data s = Some m"
    and "\<not> falsy m" "\<not> length_is_zero m"
  shows "fst (fst (mainMenu script w)) = None \<and>
         snd (fst (mainMenu script w)) =
           map (\<lambda>a. (a, listed a m))
             (takeWhile (\<lambda>a. a \<noteq> Exit) script @ take 1 (dropWhile (\<lambda>a. a \<noteq> Exit) script)) \<and>
         requests (snd (mainMenu script w)) = requests w \<and>
         writes (snd (mainMenu script w)) = writes w \<and>
         files (snd (mainMenu script w)) = files w"
  using assms
proof (induction script arbitrary: w)
  case Nil
  then show ?case by (simp add: mainMenu_cached elapse_fields)
next
  case (Cons a script)
  show ?case
  proof (cases "a = Exit")
    case True
    with Cons.prems show ?thesis by (simp add: mainMenu_cached elapse_fields)
  next
    case False
    from Cons.prems have nf: "a \<noteq> FetchNewData" and rest: "FetchNewData \<notin> set script" by auto
    have st: "stored ''/matches/upcoming'' (elapse (elapse w)) = Some s"
      using Cons.prems by (simp add: stored_elapse)
    note ih = Cons.IH [OF rest st Cons.prems(3,4,5)]
    have step: "mainMenu (a # script) w =
          (case mainMenu script (elapse (elapse w)) of
             ((r, served), w3) \<Rightarrow> ((r, (a, listed a m) # served), w3))"
      using Cons.prems False nf by (simp add: mainMenu_cached(3))
    from ih False show ?thesis
      by (auto simp: step elapse_fields split: prod.splits)
  qed
qed


lemma old_payload_shown: "\<not> falsy old_payload" "\<not> length_is_zero old_payload"
  by (simp_all add: old_payload_def)

lemma old_payload_typed: "is_matches old_payload"
  by (simp add: old_payload_def sample_match_def property_def)

text \<open>The action Fetch New Data on a stale snapshot, when the fetch fails.\<close>

lemma mainMenu_refresh_not_ok:
  assumes "stored ''/matches/upcoming'' w = Some s" "data s = Some m"
    and "\<not> falsy m" "\<not> length_is_zero m"
    and "\<not> number_less (elapsedMinutes (elapse (elapse (elapse (elapse w)))) (lastFetched s)) 10"
    and "answer ''/matches/upcoming'' w = Resolved r" "\<not> ok r"
  shows "\<exists>w'. mainMenu (FetchNewData # rest) w =
            (case mainMenu rest w' of
               ((x, served), w3) \<Rightarrow> ((x, (FetchNewData, []) # served), w3)) \<and>
          files w' = files w \<and> writes w' = writes w \<and>
          requests w' = requests w @ [bearer (BASE_URL @ ''/matches/upcoming'') w]"
proof -
  let ?w2 = "elapse (elapse w)"
  let ?w4 = "elapse (elapse ?w2)"
  let ?w5 = "elapse (?w4\<lparr>requests := requests ?w4 @ [bearer (BASE_URL @ ''/matches/upcoming'') ?w4]\<rparr>)"
  have st: "stored ''/matches/upcoming'' ?w2 = Some s"
    using assms(1) by (simp add: stored_elapse)
  from fetchIfNeeded_stale [OF st assms(5)]
  have "fetchIfNeeded ''/matches/upcoming'' 10 ?w2 =
      fetchEsportsData ''/matches/upcoming'' False ?w4" .
  moreover have "answer ''/matches/upcoming'' ?w4 = Resolved r"
    using assms(6) by (simp add: answer_elapse)
  ultimately have "fetchIfNeeded ''/matches/upcoming'' 10 ?w2 = (Inr None, ?w5)"
    using assms(7) by (simp add: fetchEsportsData_not_ok)
  then have "mainMenu (FetchNewData # rest) w =
      (case mainMenu rest ?w5 of
         ((x, served), w3) \<Rightarrow> ((x, (FetchNewData, []) # served), w3))"
    by (simp add: mainMenu_cached(4) [OF assms(1-4)])
  moreover have "files ?w5 = files w" "writes ?w5 = writes w"
    "requests ?w5 = requests w @ [bearer (BASE_URL @ ''/matches/upcoming'') w]"
    by (simp_all add: elapse_fields bearer_elapse)
  ultimately show ?thesis by blast
qed

lemma mainMenu_refresh_rejected:
  assumes "stored ''/matches/upcoming'' w = Some s" "data s = Some m"
    and "\<not> falsy m" "\<not> length_is_zero m"
    and "\<not> number_less (elapsedMinutes (elapse (elapse (elapse (elapse w)))) (lastFetched s)) 10"
    and "answer ''/matches/upcoming'' w = Rejected"
  shows "fst (mainMenu (FetchNewData # rest) w) = (Some TypeError, [(FetchNewData, [])]) \<and>
         files (snd (mainMenu (FetchNewData # rest) w)) = files w"
proof -
  let ?w2 = "elapse (elapse w)"
  let ?w4 = "elapse (elapse ?w2)"
  have st: "stored ''/matches/upcoming'' ?w2 = Some s"
    using assms(1) by (simp add: stored_elapse)
  from fetchIfNeeded_stale [OF st assms(5)]
  have "fetchIfNeeded ''/matches/upcoming'' 10 ?w2 =
      fetchEsportsData ''/matches/upcoming'' False ?w4" .
  moreover have "answer ''/matches/upcoming'' ?w4 = Rejected"
    using assms(6) by (simp add: answer_elapse)
  ultimately show ?thesis
    by (simp add: mainMenu_cached(4) [OF assms(1-4)] fetchEsportsData_rejected elapse_fields)
qed

lemma stored_files_cong:
  "files w' = files w \<Longrightarrow> stored endpoint w' = stored endpoint w"
  by (simp add: stored_def)

lemma mainMenu_first_fetch_rejected:
  assumes "files w (snapshotFile ''/matches/upcoming'') = None"
    and "answer ''/matches/upcoming'' w = Rejected"
  shows "fst (mainMenu script w) = (Some TypeError, [])"
    and "fst (mainMenu_reduced script w) = (Some TypeError, [])"
  using assms
  by (simp_all add: mainMenu.simps [of script] mainMenu_reduced.simps [of script]
      fetchEsportsData_absent fetchEsportsData_rejected answer_elapse
      fetchEsportsData_reduced_def exists_file_def fetch_unfold)

lemma mainMenu_first_fetch_not_ok:
  assumes "files w (snapshotFile ''/matches/upcoming'') = None"
    and "answer ''/matches/upcoming'' w = Resolved r" "\<not> ok r"
  shows "fst (mainMenu script w) = (None, [])"
    and "fst (mainMenu_reduced script w) = (None, [])"
  using assms
  by (simp_all add: mainMenu.simps [of script] mainMenu_reduced.simps [of script]
      fetchEsportsData_absent fetchEsportsData_not_ok answer_elapse
      fetchEsportsData_reduced_def exists_file_def fetch_unfold)

lemma program_unfold:
  assumes "API_TOKEN w \<noteq> []"
  shows "fst (program script w) =
           (case fst (fst (mainMenu script w)) of None \<Rightarrow> Finished | Some e \<Rightarrow> Uncaught e)"
    and "snd (program script w) = snd (mainMenu script w)"
    and "fst (program_reduced script w) =
           (case fst (fst (mainMenu_reduced script w)) of
              None \<Rightarrow> Finished | Some e \<Rightarrow> Uncaught e)"
  using assms
  by (auto simp: program_def program_reduced_def main_def main_reduced_def
      split: prod.splits option.splits)

lemma day_old_is_stale:
  "\<not> number_less
      (elapsedMinutes (elapse (elapse (elapse (elapse
          (sample_world (Some old_snapshot) 1704153600000 5 reply)))))
        (Some (JStr ''2024-01-01T00:00:00.000Z''))) 10"
proof -
  have "\<not> number_less
      (Some (number_divide (number_minus (real 1704153600020) (real_of_int 1704067200000)) 60000)) 10"
    by (rule stale_by_rounding [OF is_double_10]) simp_all
  then show ?thesis
    by (simp add: elapsedMinutes_def elapse_fields parse_2024 sample_world_fields)
qed

section \<open>The freshness policy: a recent snapshot\<close>

text \<open>
  C1, as the program has it. The snapshot file of the resource key holds a snapshot whose
  \<open>lastFetched\<close> stands for the instant \<open>t0\<close>, and the policy reads the clock after it
  has checked that the file exists and has read it, two awaited calls after it was
  entered. When the time elapsed from \<open>t0\<close> to that reading is less than the cooldown by a
  millisecond or more, \<open>fetchIfNeeded\<close> returns that snapshot, timestamp and payload as
  they were read, makes no request and writes nothing. Instants are whole milliseconds, so
  for a cooldown that is a whole number of milliseconds, as the ten minutes of the program
  are, this is every elapsed time below the cooldown. The elapsed time is taken to be a
  safe integer, at most \<open>2 ^ 53 - 1\<close> milliseconds in magnitude. The statement holds for
  every cooldown, not only for a positive one.
\<close>

theorem fetchIfNeeded_cache_hit:
  assumes "stored endpoint w = Some s"
    and "previous_timestamp endpoint w = Some t0"
    and "\<bar>int (clock (elapse (elapse w))) - t0\<bar> \<le> 9007199254740991"
    and "real (clock (elapse (elapse w))) - real_of_int t0 + 1 \<le> d * 60000"
  shows "fst (fetchIfNeeded endpoint d w) = Inr (Some s) \<and>
         requests (snd (fetchIfNeeded endpoint d w)) = requests w \<and>
         writes (snd (fetchIfNeeded endpoint d w)) = writes w \<and>
         files (snd (fetchIfNeeded endpoint d w)) = files w"
proof -
  from assms(1,2) have "Date_getTime (engine_date w) (lastFetched s) = Some t0"
    by (simp add: previous_timestamp_def)
  then have "number_less (elapsedMinutes (elapse (elapse w)) (lastFetched s)) d"
    using fresh_by_rounding [OF assms(3,4)] by (simp add: elapsedMinutes_def elapse_fields)
  with assms(1) have "fetchIfNeeded endpoint d w = (Inr (Some s), elapse (elapse w))"
    by (rule fetchIfNeeded_recent)
  then show ?thesis by (simp add: elapse_fields)
qed

theorem fetchIfNeeded_cache_hit_witness:
  "fst (fetchIfNeeded ''/matches/upcoming'' 10
          (sample_world (Some old_snapshot) 1704067499000 500 ok_reply)) =
     Inr (Some \<lparr>lastFetched = Some (JStr ''2024-01-01T00:00:00.000Z''),
                data = Some old_payload\<rparr>) \<and>
   requests (snd (fetchIfNeeded ''/matches/upcoming'' 10
          (sample_world (Some old_snapshot) 1704067499000 500 ok_reply))) = [] \<and>
   writes (snd (fetchIfNeeded ''/matches/upcoming'' 10
          (sample_world (Some old_snapshot) 1704067499000 500 ok_reply))) = []"
proof -
  let ?w = "sample_world (Some old_snapshot) 1704067499000 500 ok_reply"
  let ?s = "\<lparr>lastFetched = Some (JStr ''2024-01-01T00:00:00.000Z''), data = Some old_payload\<rparr>"
  have s: "stored ''/matches/upcoming'' ?w = Some ?s"
    by (rule stored_old_snapshot)
  have pt: "previous_timestamp ''/matches/upcoming'' ?w = Some 1704067200000"
    by (simp add: previous_timestamp_def stored_old_snapshot parse_2024)
  have safe: "\<bar>int (clock (elapse (elapse ?w))) - 1704067200000\<bar> \<le> 9007199254740991"
    by (simp add: elapse_fields sample_world_fields)
  have recent: "real (clock (elapse (elapse ?w))) - real_of_int 1704067200000 + 1 \<le> 10 * 60000"
    by (simp add: elapse_fields sample_world_fields)
  from fetchIfNeeded_cache_hit [OF s pt safe recent] show ?thesis
    by (simp add: sample_world_fields)
qed

text \<open>
  C1 as stated does not hold for every cooldown. The cooldown is the number \<open>0.1\<close>, a
  tenth of a minute, which as a double lies a little above 1/10. A snapshot stamped
  2024-01-01T00:00:00.000Z is read six seconds later: the elapsed time, exactly 1/10 of a
  minute, is below the cooldown, but the quotient the policy computes is rounded to the
  double of the cooldown itself and is not below it. The policy makes a request and
  overwrites the snapshot.
\<close>

theorem fetchIfNeeded_refetch_below_cooldown:
  "0 < a_tenth \<and> is_double a_tenth \<and>
   previous_timestamp ''/matches/upcoming''
     (sample_world (Some old_snapshot) 1704067206000 0 ok_reply) = Some 1704067200000 \<and>
   clock (elapse (elapse (sample_world (Some old_snapshot) 1704067206000 0 ok_reply))) =
     1704067206000 \<and>
   (1704067206000 - 1704067200000) / 60000 < a_tenth \<and>
   requests (snd (fetchIfNeeded ''/matches/upcoming'' a_tenth
     (sample_world (Some old_snapshot) 1704067206000 0 ok_reply))) =
     [\<lparr>url = ''https://api.pandascore.co/matches/upcoming'', authorization = ''Bearer token''\<rparr>] \<and>
   stored ''/matches/upcoming'' (snd (fetchIfNeeded ''/matches/upcoming'' a_tenth
     (sample_world (Some old_snapshot) 1704067206000 0 ok_reply))) =
     Some \<lparr>lastFetched = Some (JStr ''2024-01-01T00:00:06.000Z''), data = Some new_payload\<rparr>"
proof -
  let ?w = "sample_world (Some old_snapshot) 1704067206000 0 ok_reply"
  let ?s = "\<lparr>lastFetched = Some (JStr ''2024-01-01T00:00:00.000Z''), data = Some old_payload\<rparr>"
  let ?r = "\<lparr>resp_status = 200, resp_statusText = ''OK'', resp_body = Json new_payload\<rparr>"
  have st: "stored ''/matches/upcoming'' ?w = Some ?s"
    by (rule stored_old_snapshot)
  have pt: "previous_timestamp ''/matches/upcoming'' ?w = Some 1704067200000"
    by (simp add: previous_timestamp_def st parse_2024)
  have now: "clock (elapse (elapse ?w)) = 1704067206000"
    by (simp add: elapse_fields sample_world_fields)
  have "elapsedMinutes (elapse (elapse ?w)) (lastFetched ?s) = Some a_tenth"
    using six_seconds_in_minutes
    by (simp add: elapsedMinutes_def elapse_fields parse_2024 sample_world_fields)
  then have "\<not> number_less (elapsedMinutes (elapse (elapse ?w)) (lastFetched ?s)) a_tenth"
    by simp
  with st have run: "fetchIfNeeded ''/matches/upcoming'' a_tenth ?w =
      fetchEsportsData ''/matches/upcoming'' False (elapse (elapse ?w))"
    by (rule fetchIfNeeded_stale)
  have ans: "answer ''/matches/upcoming'' (elapse (elapse ?w)) = Resolved ?r"
    by (simp add: answer_elapse answer_sample ok_reply_def)
  have body: "JSON_parse (resp_body ?r) = Inr new_payload" by simp
  note out = fetchEsportsData_ok [OF ans ok_200 body]
  have rq: "requests (snd (fetchIfNeeded ''/matches/upcoming'' a_tenth ?w)) =
      [\<lparr>url = ''https://api.pandascore.co/matches/upcoming'', authorization = ''Bearer token''\<rparr>]"
    by (simp add: run out saveSnapshot_fields elapse_fields bearer_def BASE_URL_def
        sample_world_fields)
  have fl: "files (snd (fetchIfNeeded ''/matches/upcoming'' a_tenth ?w))
        (snapshotFile ''/matches/upcoming'') =
      Some (Json (JObj [(''lastFetched'', JStr ''2024-01-01T00:00:06.000Z''), (''data'', new_payload)]))"
    by (simp add: run out saveSnapshot_fields elapse_fields sample_world_fields JSON_stringify_def
        iso_2024_06)
  have st': "stored ''/matches/upcoming'' (snd (fetchIfNeeded ''/matches/upcoming'' a_tenth ?w)) =
      Some \<lparr>lastFetched = Some (JStr ''2024-01-01T00:00:06.000Z''), data = Some new_payload\<rparr>"
    by (simp add: stored_def fl property_def)
  from a_tenth_above is_double_a_tenth pt now rq st' show ?thesis by simp
qed

section \<open>The freshness policy: an old or a missing snapshot\<close>

text \<open>
  C2, as the program has it. When there is no snapshot file, or when the time elapsed
  since the timestamp of the snapshot is at least the cooldown, \<open>fetchIfNeeded\<close> makes
  exactly one request. The cooldown is a number of the program, a double, and the elapsed
  time is taken to be a safe integer, at most \<open>2 ^ 53 - 1\<close> milliseconds in magnitude
  (some 285000 years): beyond that the difference of the two instants is itself rounded. When the response is ok and its body is JSON, the snapshot file
  is overwritten with that payload and a timestamp \<open>t\<close> read from the clock after the
  policy was entered, which is the instant a later reader computes from the file (up to
  the end of the year 9999); against the timestamp \<open>t0\<close> of the previous snapshot,
  \<open>t\<close> is at least the cooldown later. So it is no earlier than \<open>t0\<close> for a cooldown
  of zero or more, and strictly later for a positive cooldown.
\<close>

theorem fetchIfNeeded_refetch:
  assumes "files w (snapshotFile endpoint) = None \<or>
           (previous_timestamp endpoint w = Some t0 \<and> is_double d \<and>
            \<bar>int (clock (elapse (elapse w))) - t0\<bar> \<le> 9007199254740991 \<and>
            d * 60000 \<le> real (clock (elapse (elapse w))) - real_of_int t0)"
  shows "requests (snd (fetchIfNeeded endpoint d w)) =
           requests w @ [bearer (BASE_URL @ endpoint) w] \<and>
         (answer endpoint w = Resolved r \<and> ok r \<and> JSON_parse (resp_body r) = Inr p \<longrightarrow>
           (\<exists>t t'. fst (fetchIfNeeded endpoint d w) =
                Inr (Some \<lparr>lastFetched = Some (JStr (toISOString t')), data = Some p\<rparr>) \<and>
              files (snd (fetchIfNeeded endpoint d w)) =
                (files w)(snapshotFile endpoint \<mapsto> JSON_stringify (snapshot_object t p)) \<and>
              clock w \<le> t \<and> t \<le> t' \<and>
              (t < 253402300800000 \<longrightarrow>
                 previous_timestamp endpoint (snd (fetchIfNeeded endpoint d w)) = Some (int t)) \<and>
              (previous_timestamp endpoint w = Some t0 \<longrightarrow>
                 real_of_int t0 + d * 60000 \<le> real t \<and>
                 (0 \<le> d \<longrightarrow> t0 \<le> int t) \<and> (0 < d \<longrightarrow> t0 < int t))))"
proof -
  obtain k where k: "fetchIfNeeded endpoint d w = fetchEsportsData endpoint False (elapse (k w))"
    and kid: "k w = w \<or> k w = elapse w"
    and late: "previous_timestamp endpoint w = Some t0 \<Longrightarrow>
      real_of_int t0 + d * 60000 \<le> real (clock (elapse (k w)))"
  proof (cases "files w (snapshotFile endpoint)")
    case None
    then have "previous_timestamp endpoint w = None"
      by (simp add: previous_timestamp_def stored_def)
    with None show ?thesis
      using that [of "\<lambda>w. w"] by (simp add: fetchIfNeeded_absent)
  next
    case (Some c)
    with assms have pt: "previous_timestamp endpoint w = Some t0"
      and dbl: "is_double d"
      and safe: "\<bar>int (clock (elapse (elapse w))) - t0\<bar> \<le> 9007199254740991"
      and st: "d * 60000 \<le> real (clock (elapse (elapse w))) - real_of_int t0"
      by simp_all
    from pt obtain s where s: "stored endpoint w = Some s"
      and g: "Date_getTime (engine_date w) (lastFetched s) = Some t0"
      by (auto simp: previous_timestamp_def split: option.splits)
    from g stale_by_rounding [OF dbl safe st]
    have "\<not> number_less (elapsedMinutes (elapse (elapse w)) (lastFetched s)) d"
      by (simp add: elapsedMinutes_def elapse_fields)
    with s have "fetchIfNeeded endpoint d w = fetchEsportsData endpoint False (elapse (elapse w))"
      by (rule fetchIfNeeded_stale)
    with st show ?thesis
      using that [of elapse] by (simp add: field_simps)
  qed
  have ans: "answer endpoint (elapse (k w)) = answer endpoint w"
    using kid by (auto simp: answer_elapse)
  have same: "requests (elapse (k w)) = requests w" "files (elapse (k w)) = files w"
    "bearer (BASE_URL @ endpoint) (elapse (k w)) = bearer (BASE_URL @ endpoint) w"
    using kid by (auto simp: elapse_fields bearer_elapse)
  have mono: "clock w \<le> clock (elapse (k w))"
    using kid by (auto simp: elapse_fields)
  have one: "requests (snd (fetchIfNeeded endpoint d w)) =
      requests w @ [bearer (BASE_URL @ endpoint) w]"
    by (simp add: k fetchEsportsData_one_request same)
  have good: "\<exists>t t'. fst (fetchIfNeeded endpoint d w) =
        Inr (Some \<lparr>lastFetched = Some (JStr (toISOString t')), data = Some p\<rparr>) \<and>
      files (snd (fetchIfNeeded endpoint d w)) =
        (files w)(snapshotFile endpoint \<mapsto> JSON_stringify (snapshot_object t p)) \<and>
      clock w \<le> t \<and> t \<le> t' \<and>
      (t < 253402300800000 \<longrightarrow>
         previous_timestamp endpoint (snd (fetchIfNeeded endpoint d w)) = Some (int t)) \<and>
      (previous_timestamp endpoint w = Some t0 \<longrightarrow>
         real_of_int t0 + d * 60000 \<le> real t \<and>
         (0 \<le> d \<longrightarrow> t0 \<le> int t) \<and> (0 < d \<longrightarrow> t0 < int t))"
    if a: "answer endpoint w = Resolved r" "ok r" "JSON_parse (resp_body r) = Inr p"
  proof -
    from a ans have "answer endpoint (elapse (k w)) = Resolved r" by simp
    from fetchEsportsData_ok_files [OF this a(2,3)]
    obtain t t' where res: "fst (fetchEsportsData endpoint False (elapse (k w))) =
           Inr (Some \<lparr>lastFetched = Some (JStr (toISOString t')), data = Some p\<rparr>)"
      and fl: "files (snd (fetchEsportsData endpoint False (elapse (k w)))) =
           (files (elapse (k w)))(snapshotFile endpoint \<mapsto> JSON_stringify (snapshot_object t p))"
      and tt: "clock (elapse (k w)) \<le> t" "t \<le> t'"
      by blast
    have "real_of_int t0 + d * 60000 \<le> real t \<and>
         (0 \<le> d \<longrightarrow> t0 \<le> int t) \<and> (0 < d \<longrightarrow> t0 < int t)"
      if "previous_timestamp endpoint w = Some t0"
    proof -
      from late [OF that] tt(1) have 1: "real_of_int t0 + d * 60000 \<le> real t" by linarith
      have 2: "t0 \<le> int t" if "0 \<le> d"
      proof -
        from that have "0 \<le> d * 60000" by simp
        with 1 have "real_of_int t0 \<le> real t" by linarith
        then show ?thesis by linarith
      qed
      have 3: "t0 < int t" if "0 < d"
      proof -
        from that have "0 < d * 60000" by simp
        with 1 have "real_of_int t0 < real t" by linarith
        then show ?thesis by linarith
      qed
      from 1 2 3 show ?thesis by blast
    qed
    moreover have "fst (fetchIfNeeded endpoint d w) =
        Inr (Some \<lparr>lastFetched = Some (JStr (toISOString t')), data = Some p\<rparr>)"
      using res by (simp add: k)
    moreover have written: "files (snd (fetchIfNeeded endpoint d w)) =
        (files w)(snapshotFile endpoint \<mapsto> JSON_stringify (snapshot_object t p))"
      using fl by (simp add: k same)
    moreover have "previous_timestamp endpoint (snd (fetchIfNeeded endpoint d w)) = Some (int t)"
      if "t < 253402300800000"
      using written that by (intro previous_timestamp_written) simp_all
    moreover have "clock w \<le> t" using mono tt(1) by linarith
    ultimately show ?thesis using tt(2) by blast
  qed
  from one good show ?thesis by blast
qed

theorem fetchIfNeeded_refetch_witness:
  "requests (snd (fetchIfNeeded ''/matches/upcoming'' 10
      (sample_world (Some old_snapshot) 1704067800000 0 ok_reply))) =
     [\<lparr>url = ''https://api.pandascore.co/matches/upcoming'', authorization = ''Bearer token''\<rparr>] \<and>
   (\<exists>t. files (snd (fetchIfNeeded ''/matches/upcoming'' 10
      (sample_world (Some old_snapshot) 1704067800000 0 ok_reply))) ''snapshot__matches/upcoming.json'' =
        Some (Json (snapshot_object t new_payload)) \<and> 1704067200000 < int t) \<and>
   requests (snd (fetchIfNeeded ''/matches/upcoming'' 10
      (sample_world None 1704067800000 7 ok_reply))) =
     [\<lparr>url = ''https://api.pandascore.co/matches/upcoming'', authorization = ''Bearer token''\<rparr>]"
proof -
  let ?w = "sample_world (Some old_snapshot) 1704067800000 0 ok_reply"
  let ?v = "sample_world None 1704067800000 7 ok_reply"
  let ?r = "\<lparr>resp_status = 200, resp_statusText = ''OK'', resp_body = Json new_payload\<rparr>"
  have pt: "previous_timestamp ''/matches/upcoming'' ?w = Some 1704067200000"
    by (simp add: previous_timestamp_def stored_old_snapshot parse_2024)
  have due: "files ?w (snapshotFile ''/matches/upcoming'') = None \<or>
      (previous_timestamp ''/matches/upcoming'' ?w = Some 1704067200000 \<and> is_double 10 \<and>
       \<bar>int (clock (elapse (elapse ?w))) - 1704067200000\<bar> \<le> 9007199254740991 \<and>
       10 * 60000 \<le> real (clock (elapse (elapse ?w))) - real_of_int 1704067200000)"
    by (simp add: pt elapse_fields sample_world_fields is_double_10)
  have ans: "answer ''/matches/upcoming'' ?w = Resolved ?r \<and> ok ?r \<and>
      JSON_parse (resp_body ?r) = Inr new_payload"
    by (simp add: answer_sample ok_reply_def ok_200)
  have absent: "files ?v (snapshotFile ''/matches/upcoming'') = None \<or>
      (previous_timestamp ''/matches/upcoming'' ?v = Some 0 \<and> is_double 10 \<and>
       \<bar>int (clock (elapse (elapse ?v))) - 0\<bar> \<le> 9007199254740991 \<and>
       10 * 60000 \<le> real (clock (elapse (elapse ?v))) - real_of_int 0)"
    by (simp add: sample_world_fields snapshotFile_upcoming)
  from fetchIfNeeded_refetch [OF due, of ?r new_payload] ans pt
  have 1: "requests (snd (fetchIfNeeded ''/matches/upcoming'' 10 ?w)) =
      requests ?w @ [bearer (BASE_URL @ ''/matches/upcoming'') ?w]"
    and 2: "\<exists>t. files (snd (fetchIfNeeded ''/matches/upcoming'' 10 ?w)) =
      (files ?w)(snapshotFile ''/matches/upcoming'' \<mapsto> JSON_stringify (snapshot_object t new_payload))
      \<and> 1704067200000 < int t"
    by auto
  from fetchIfNeeded_refetch [OF absent, of ?r new_payload]
  have 3: "requests (snd (fetchIfNeeded ''/matches/upcoming'' 10 ?v)) =
      requests ?v @ [bearer (BASE_URL @ ''/matches/upcoming'') ?v]"
    by simp
  from 1 have a: "requests (snd (fetchIfNeeded ''/matches/upcoming'' 10 ?w)) =
     [\<lparr>url = ''https://api.pandascore.co/matches/upcoming'', authorization = ''Bearer token''\<rparr>]"
    by (simp add: bearer_def BASE_URL_def sample_world_fields)
  from 3 have c: "requests (snd (fetchIfNeeded ''/matches/upcoming'' 10 ?v)) =
     [\<lparr>url = ''https://api.pandascore.co/matches/upcoming'', authorization = ''Bearer token''\<rparr>]"
    by (simp add: bearer_def BASE_URL_def sample_world_fields)
  from 2 obtain t where "files (snd (fetchIfNeeded ''/matches/upcoming'' 10 ?w)) =
      (files ?w)(snapshotFile ''/matches/upcoming'' \<mapsto> JSON_stringify (snapshot_object t new_payload))"
    and "1704067200000 < int t" by blast
  then have b: "\<exists>t. files (snd (fetchIfNeeded ''/matches/upcoming'' 10 ?w))
       ''snapshot__matches/upcoming.json'' = Some (Json (snapshot_object t new_payload)) \<and>
       1704067200000 < int t"
    by (auto simp: snapshotFile_upcoming JSON_stringify_def)
  from a b c show ?thesis by blast
qed

text \<open>
  C2 as stated does not hold for a cooldown of zero. A snapshot stamped
  2024-01-01T00:00:00.000Z, a clock that reads that same millisecond throughout, and an
  ok response: the policy makes its request and overwrites the snapshot with the new
  payload, and the new timestamp equals the previous one.
\<close>

theorem fetchIfNeeded_zero_cooldown_same_timestamp:
  "previous_timestamp ''/matches/upcoming''
     (sample_world (Some old_snapshot) 1704067200000 0 ok_reply) = Some 1704067200000 \<and>
   requests (snd (fetchIfNeeded ''/matches/upcoming'' 0
     (sample_world (Some old_snapshot) 1704067200000 0 ok_reply))) =
     [\<lparr>url = ''https://api.pandascore.co/matches/upcoming'', authorization = ''Bearer token''\<rparr>] \<and>
   stored ''/matches/upcoming'' (snd (fetchIfNeeded ''/matches/upcoming'' 0
     (sample_world (Some old_snapshot) 1704067200000 0 ok_reply))) =
     Some \<lparr>lastFetched = Some (JStr ''2024-01-01T00:00:00.000Z''), data = Some new_payload\<rparr> \<and>
   previous_timestamp ''/matches/upcoming'' (snd (fetchIfNeeded ''/matches/upcoming'' 0
     (sample_world (Some old_snapshot) 1704067200000 0 ok_reply))) = Some 1704067200000"
proof -
  let ?w = "sample_world (Some old_snapshot) 1704067200000 0 ok_reply"
  let ?s = "\<lparr>lastFetched = Some (JStr ''2024-01-01T00:00:00.000Z''), data = Some old_payload\<rparr>"
  let ?r = "\<lparr>resp_status = 200, resp_statusText = ''OK'', resp_body = Json new_payload\<rparr>"
  have st: "stored ''/matches/upcoming'' ?w = Some ?s"
    by (rule stored_old_snapshot)
  have pt: "previous_timestamp ''/matches/upcoming'' ?w = Some 1704067200000"
    by (simp add: previous_timestamp_def st parse_2024)
  have "\<not> number_less (elapsedMinutes (elapse (elapse ?w)) (lastFetched ?s)) 0"
    by (simp add: elapsedMinutes_def elapse_fields parse_2024 sample_world_fields
        number_minus_def number_divide_def round_double_zero)
  with st have run: "fetchIfNeeded ''/matches/upcoming'' 0 ?w =
      fetchEsportsData ''/matches/upcoming'' False (elapse (elapse ?w))"
    by (rule fetchIfNeeded_stale)
  have ans: "answer ''/matches/upcoming'' (elapse (elapse ?w)) = Resolved ?r"
    by (simp add: answer_elapse answer_sample ok_reply_def)
  have body: "JSON_parse (resp_body ?r) = Inr new_payload" by simp
  note out = fetchEsportsData_ok [OF ans ok_200 body]
  have rq: "requests (snd (fetchIfNeeded ''/matches/upcoming'' 0 ?w)) =
      [\<lparr>url = ''https://api.pandascore.co/matches/upcoming'', authorization = ''Bearer token''\<rparr>]"
    by (simp add: run out saveSnapshot_fields elapse_fields bearer_def BASE_URL_def
        sample_world_fields)
  have fl: "files (snd (fetchIfNeeded ''/matches/upcoming'' 0 ?w)) (snapshotFile ''/matches/upcoming'') =
      Some (Json (JObj [(''lastFetched'', JStr ''2024-01-01T00:00:00.000Z''), (''data'', new_payload)]))"
    by (simp add: run out saveSnapshot_fields elapse_fields sample_world_fields JSON_stringify_def
        iso_2024)
  have st': "stored ''/matches/upcoming'' (snd (fetchIfNeeded ''/matches/upcoming'' 0 ?w)) =
      Some \<lparr>lastFetched = Some (JStr ''2024-01-01T00:00:00.000Z''), data = Some new_payload\<rparr>"
    by (simp add: stored_def fl property_def)
  have pt': "previous_timestamp ''/matches/upcoming'' (snd (fetchIfNeeded ''/matches/upcoming'' 0 ?w))
      = Some 1704067200000"
    by (simp add: previous_timestamp_def st' parse_2024)
  from pt rq st' pt' show ?thesis by blast
qed

text \<open>
  Why the elapsed time is taken to be a safe integer. The snapshot is stamped with the
  earliest instant a \<open>Date\<close> can hold and the clock reads a day of the year 13605. The
  elapsed time is exactly the cooldown, but the difference of the two instants lies beyond
  \<open>2 ^ 53\<close> and is rounded down, its quotient by 60000 falls below the cooldown, and
  the policy returns the snapshot it found without a request.
\<close>

lemma refetch_needs_safe_elapsed_time:
  "is_double far_cooldown \<and>
   previous_timestamp ''/matches/upcoming''
     (sample_world (Some far_snapshot) 367199254745625 0 ok_reply) = Some (- 8640000000000000) \<and>
   far_cooldown * 60000 \<le>
     real (clock (elapse (elapse (sample_world (Some far_snapshot) 367199254745625 0 ok_reply)))) -
     real_of_int (- 8640000000000000) \<and>
   fst (fetchIfNeeded ''/matches/upcoming'' far_cooldown
     (sample_world (Some far_snapshot) 367199254745625 0 ok_reply)) =
     Inr (Some \<lparr>lastFetched = Some (JNum (- 8640000000000000)), data = Some old_payload\<rparr>) \<and>
   requests (snd (fetchIfNeeded ''/matches/upcoming'' far_cooldown
     (sample_world (Some far_snapshot) 367199254745625 0 ok_reply))) = []"
proof -
  let ?w = "sample_world (Some far_snapshot) 367199254745625 0 ok_reply"
  let ?s = "\<lparr>lastFetched = Some (JNum (- 8640000000000000)), data = Some old_payload\<rparr>"
  have st: "stored ''/matches/upcoming'' ?w = Some ?s"
    by (simp add: stored_def snapshotFile_upcoming sample_world_def far_snapshot_def property_def)
  have pt: "previous_timestamp ''/matches/upcoming'' ?w = Some (- 8640000000000000)"
    by (simp add: previous_timestamp_def st TimeClip_def)
  have due: "far_cooldown * 60000 \<le>
      real (clock (elapse (elapse ?w))) - real_of_int (- 8640000000000000)"
    using far_elapsed(2) by (simp add: elapse_fields sample_world_fields)
  have "number_less (elapsedMinutes (elapse (elapse ?w)) (lastFetched ?s)) far_cooldown"
    using far_elapsed(1) by (simp add: elapsedMinutes_def elapse_fields sample_world_fields TimeClip_def)
  with st have "fetchIfNeeded ''/matches/upcoming'' far_cooldown ?w = (Inr (Some ?s), elapse (elapse ?w))"
    by (rule fetchIfNeeded_recent)
  then have "fst (fetchIfNeeded ''/matches/upcoming'' far_cooldown ?w) = Inr (Some ?s)"
    "requests (snd (fetchIfNeeded ''/matches/upcoming'' far_cooldown ?w)) = []"
    by (simp_all add: elapse_fields sample_world_fields)
  with is_double_far_cooldown pt due show ?thesis by blast
qed

section \<open>A fetch that fails\<close>

text \<open>
  C3, as the program has it. A fetch attempt fails when the response is not ok or when
  the request itself cannot be carried out. On a response that is not ok
  \<open>fetchEsportsData\<close> returns \<open>null\<close>. On a transport failure nothing is returned:
  the \<open>TypeError\<close> of \<open>fetch\<close> leaves the function, which has no handler for it. In
  both cases, in both entry points and through \<open>fetchIfNeeded\<close> as well, nothing is
  written and every file is as it was.
\<close>

theorem failed_fetch_writes_nothing:
  assumes "answer endpoint w = Rejected \<or> (answer endpoint w = Resolved r \<and> \<not> ok r)"
  shows "fst (fetchEsportsData endpoint False w) =
           (if answer endpoint w = Rejected then Inl TypeError else Inr None) \<and>
         writes (snd (fetchEsportsData endpoint False w)) = writes w \<and>
         files (snd (fetchEsportsData endpoint False w)) = files w \<and>
         fst (fetchEsportsData_reduced endpoint False w) =
           (if answer endpoint w = Rejected then Inl TypeError else Inr JNull) \<and>
         writes (snd (fetchEsportsData_reduced endpoint False w)) = writes w \<and>
         files (snd (fetchEsportsData_reduced endpoint False w)) = files w \<and>
         writes (snd (fetchIfNeeded endpoint d w)) = writes w \<and>
         files (snd (fetchIfNeeded endpoint d w)) = files w"
proof -
  note policy = fetchIfNeeded_frame [OF assms, of d]
  from assms show ?thesis
  proof
    assume "answer endpoint w = Rejected"
    with policy show ?thesis
      by (simp add: fetchEsportsData_rejected fetchEsportsData_reduced_rejected elapse_fields)
  next
    assume "answer endpoint w = Resolved r \<and> \<not> ok r"
    with policy show ?thesis
      by (simp add: fetchEsportsData_not_ok fetchEsportsData_reduced_not_ok elapse_fields)
  qed
qed

theorem failed_fetch_writes_nothing_witness:
  "fst (fetchEsportsData ''/matches/upcoming'' False
          (sample_world (Some old_snapshot) 1704067800000 3 error_reply)) = Inr None \<and>
   files (snd (fetchEsportsData ''/matches/upcoming'' False
          (sample_world (Some old_snapshot) 1704067800000 3 error_reply)))
      ''snapshot__matches/upcoming.json'' = Some old_snapshot \<and>
   writes (snd (fetchIfNeeded ''/matches/upcoming'' 10
          (sample_world (Some old_snapshot) 1704067800000 3 error_reply))) = []"
proof -
  let ?w = "sample_world (Some old_snapshot) 1704067800000 3 error_reply"
  let ?r = "\<lparr>resp_status = 503, resp_statusText = ''Service Unavailable'',
           resp_body = NotJson ''unavailable''\<rparr>"
  have "answer ''/matches/upcoming'' ?w = Rejected \<or>
      (answer ''/matches/upcoming'' ?w = Resolved ?r \<and> \<not> ok ?r)"
    by (simp add: answer_sample error_reply_def not_ok_503)
  from failed_fetch_writes_nothing [OF this, of 10] show ?thesis
    by (simp add: answer_sample error_reply_def sample_world_fields)
qed

text \<open>
  C3 as stated does not hold for a transport failure: with the request rejected,
  \<open>fetchEsportsData\<close> does not return a failure indicator, it throws.
\<close>

theorem transport_failure_throws:
  "fst (fetchEsportsData ''/matches/upcoming'' False
          (sample_world (Some old_snapshot) 1704067800000 3 Rejected)) = Inl TypeError"
  by (simp add: fetchEsportsData_rejected answer_sample)

section \<open>Writing and reading a snapshot\<close>

text \<open>
  C4, as the program has it. In the entry point with the freshness policy,
  \<open>saveSnapshot\<close> writes to the file of the resource key the text of an object with
  exactly two members, \<open>lastFetched\<close> with the clock reading taken when the call is
  entered and \<open>data\<close> with the payload as received; the text parses back to that object.
  The path is \<open>snapshot_\<close>, the key with its first slash replaced by an underscore, and
  \<open>.json\<close>. In the reduced entry point \<open>main.ts\<close>, \<open>saveSnapshot\<close> writes to the same
  path the text of the payload alone.
\<close>

theorem saveSnapshot_file:
  "files (saveSnapshot d (snapshotFile key) w) =
     (files w)(snapshotFile key \<mapsto>
        JSON_stringify (JObj [(''lastFetched'', JStr (toISOString (clock w))), (''data'', d)])) \<and>
   JSON_parse (JSON_stringify (JObj [(''lastFetched'', JStr (toISOString (clock w))), (''data'', d)])) =
     Inr (JObj [(''lastFetched'', JStr (toISOString (clock w))), (''data'', d)]) \<and>
   snapshotFile key = ''snapshot_'' @ replace_first CHR ''/'' CHR ''_'' key @ ''.json'' \<and>
   files (saveSnapshot_reduced d (snapshotFile key) w) =
     (files w)(snapshotFile key \<mapsto> JSON_stringify d)"
  by (simp add: saveSnapshot_fields saveSnapshot_reduced_fields JSON_stringify_def snapshotFile_def)

text \<open>
  C4 as stated does not hold for \<open>saveSnapshot\<close> of \<open>main.ts\<close>: the file it writes
  for an array payload holds that array, not an object with a timestamp and a data member.
\<close>

theorem saveSnapshot_reduced_bare_payload:
  "files (saveSnapshot_reduced new_payload (snapshotFile ''/matches/upcoming'')
            (sample_world None 1704067800000 3 ok_reply)) ''snapshot__matches/upcoming.json'' =
     Some (Json (JArr [sample_match 2 ''Gamma vs Delta'' ''Counter-Strike'']))"
  by (simp add: saveSnapshot_reduced_fields snapshotFile_upcoming JSON_stringify_def new_payload_def)

text \<open>
  C8, as the program has it. In the entry point with the freshness policy, writing a
  snapshot for a key and reading the snapshot of that key back yields the payload that
  was written and the timestamp of the clock reading at which the write was entered;
  up to the end of the year 9999 the instant the policy computes from that timestamp is
  this clock reading, so it is no earlier than the start of the write. In the reduced
  entry point \<open>main.ts\<close>, it yields the payload that was written, and no timestamp.
\<close>

theorem snapshot_round_trip:
  "fst (fetchEsportsData key True (saveSnapshot d (snapshotFile key) w)) =
     Inr (Some \<lparr>lastFetched = Some (JStr (toISOString (clock w))), data = Some d\<rparr>) \<and>
   (clock w < 253402300800000 \<longrightarrow>
      previous_timestamp key (saveSnapshot d (snapshotFile key) w) = Some (int (clock w))) \<and>
   fst (fetchEsportsData_reduced key True (saveSnapshot_reduced d (snapshotFile key) w)) = Inr d"
proof -
  have "previous_timestamp key (saveSnapshot d (snapshotFile key) w) = Some (int (clock w))"
    if "clock w < 253402300800000"
    using that by (intro previous_timestamp_written) (simp_all add: saveSnapshot_fields)
  then show ?thesis
    by (simp add: fetchEsportsData_cached [OF stored_saveSnapshot]
        fetchEsportsData_reduced_cached [where c = "JSON_stringify d"]
        saveSnapshot_reduced_fields JSON_stringify_def)
qed

theorem snapshot_round_trip_witness:
  "fst (fetchEsportsData ''/matches/upcoming'' True
          (saveSnapshot new_payload (snapshotFile ''/matches/upcoming'')
             (sample_world None 1704067800000 3 ok_reply))) =
     Inr (Some \<lparr>lastFetched = Some (JStr ''2024-01-01T00:10:00.000Z''),
                data = Some new_payload\<rparr>) \<and>
   previous_timestamp ''/matches/upcoming''
     (saveSnapshot new_payload (snapshotFile ''/matches/upcoming'')
        (sample_world None 1704067800000 3 ok_reply)) = Some 1704067800000"
  using snapshot_round_trip [of "''/matches/upcoming''" new_payload
      "sample_world None 1704067800000 3 ok_reply"]
  by (simp add: sample_world_fields iso_2024_10)

text \<open>
  C8 as stated does not hold for \<open>main.ts\<close>: what is read back is the payload itself,
  and the file that was written has no timestamp member for any reader to find.
\<close>

theorem reduced_round_trip_has_no_timestamp:
  "fst (fetchEsportsData_reduced ''/matches/upcoming'' True
          (saveSnapshot_reduced new_payload (snapshotFile ''/matches/upcoming'')
             (sample_world None 1704067800000 3 ok_reply))) =
     Inr (JArr [sample_match 2 ''Gamma vs Delta'' ''Counter-Strike'']) \<and>
   stored ''/matches/upcoming''
     (saveSnapshot_reduced new_payload (snapshotFile ''/matches/upcoming'')
        (sample_world None 1704067800000 3 ok_reply)) =
     Some \<lparr>lastFetched = None, data = None\<rparr>"
  by (simp add: fetchEsportsData_reduced_cached [where c = "JSON_stringify new_payload"]
      saveSnapshot_reduced_fields JSON_stringify_def stored_def new_payload_def)

section \<open>How the session obtains its data\<close>




section \<open>A failed fetch in the session\<close>

text \<open>
  C9, as the program has it. A response that is not ok is recovered where it happens:
  \<open>fetchEsportsData\<close> returns \<open>null\<close>, and a session that has a snapshot, with a
  payload of the type \<open>Match[]\<close>, goes on after the action Fetch New Data, its next
  actions listing from the cached payload, the file as it was; a session without a
  snapshot ends in the normal way. A transport failure is not recovered: the
  \<open>TypeError\<close> of \<open>fetch\<close> leaves \<open>fetchEsportsData\<close>, then the menu and \<open>main\<close>,
  none of which handles it, and the process ends with the uncaught exception, in both
  entry points. The snapshot file is untouched then as well.
\<close>

theorem failed_fetch_in_session:
  assumes "API_TOKEN w \<noteq> []"
  shows
  "(answer ''/matches/upcoming'' w = Resolved r \<and> \<not> ok r \<longrightarrow>
      fst (fetchEsportsData ''/matches/upcoming'' False w) = Inr None \<and>
      fst (fetchEsportsData_reduced ''/matches/upcoming'' False w) = Inr JNull \<and>
      (files w (snapshotFile ''/matches/upcoming'') = None \<longrightarrow>
         fst (program script w) = Finished \<and> fst (program_reduced script w) = Finished) \<and>
      (stored ''/matches/upcoming'' w = Some s \<and> data s = Some m \<and> is_matches m \<and>
       \<not> falsy m \<and> \<not> length_is_zero m \<and>
       \<not> number_less (elapsedMinutes (elapse (elapse (elapse (elapse w)))) (lastFetched s)) 10 \<and>
       FetchNewData \<notin> set rest \<and> Exit \<notin> set rest \<longrightarrow>
         fst (program (FetchNewData # rest) w) = Finished \<and>
         fst (main (FetchNewData # rest) w) =
           (None, (FetchNewData, []) # map (\<lambda>a. (a, listed a m)) rest) \<and>
         files (snd (main (FetchNewData # rest) w)) = files w)) \<and>
   (answer ''/matches/upcoming'' w = Rejected \<longrightarrow>
      fst (fetchEsportsData ''/matches/upcoming'' False w) = Inl TypeError \<and>
      fst (fetchEsportsData_reduced ''/matches/upcoming'' False w) = Inl TypeError \<and>
      (files w (snapshotFile ''/matches/upcoming'') = None \<longrightarrow>
         fst (program script w) = Uncaught TypeError \<and>
         fst (program_reduced script w) = Uncaught TypeError) \<and>
      (stored ''/matches/upcoming'' w = Some s \<and> data s = Some m \<and> \<not> falsy m \<and>
       \<not> length_is_zero m \<and>
       \<not> number_less (elapsedMinutes (elapse (elapse (elapse (elapse w)))) (lastFetched s)) 10 \<longrightarrow>
         fst (program (FetchNewData # rest) w) = Uncaught TypeError \<and>
         files (snd (program (FetchNewData # rest) w)) = files w))"
proof -
  have bad: "fst (fetchEsportsData ''/matches/upcoming'' False w) = Inr None \<and>
      fst (fetchEsportsData_reduced ''/matches/upcoming'' False w) = Inr JNull"
    if "answer ''/matches/upcoming'' w = Resolved r" "\<not> ok r"
    using that by (simp add: fetchEsportsData_not_ok fetchEsportsData_reduced_not_ok)
  have bad_first: "fst (program script w) = Finished \<and> fst (program_reduced script w) = Finished"
    if "answer ''/matches/upcoming'' w = Resolved r" "\<not> ok r"
      "files w (snapshotFile ''/matches/upcoming'') = None"
    using mainMenu_first_fetch_not_ok [OF that(3) that(1,2), of script]
    by (simp add: program_unfold [OF assms])
  have bad_later: "fst (program (FetchNewData # rest) w) = Finished \<and>
      fst (main (FetchNewData # rest) w) =
        (None, (FetchNewData, []) # map (\<lambda>a. (a, listed a m)) rest) \<and>
      files (snd (main (FetchNewData # rest) w)) = files w"
    if a: "answer ''/matches/upcoming'' w = Resolved r" "\<not> ok r"
      and c: "stored ''/matches/upcoming'' w = Some s" "data s = Some m" "\<not> falsy m"
        "\<not> length_is_zero m"
      and o: "\<not> number_less (elapsedMinutes (elapse (elapse (elapse (elapse w))))
        (lastFetched s)) 10"
      and clean: "FetchNewData \<notin> set rest" "Exit \<notin> set rest"
      and typed: "is_matches m"
  proof -
    from mainMenu_refresh_not_ok [OF c o a, of rest]
    obtain w' where step: "mainMenu (FetchNewData # rest) w =
        (case mainMenu rest w' of
           ((x, served), w3) \<Rightarrow> ((x, (FetchNewData, []) # served), w3))"
      and same: "files w' = files w"
      by blast
    have st: "stored ''/matches/upcoming'' w' = Some s"
      using stored_files_cong [OF same, of "''/matches/upcoming''"] c(1) by simp
    from clean(2) have tw: "takeWhile (\<lambda>a. a \<noteq> Exit) rest = rest"
      and dw: "dropWhile (\<lambda>a. a \<noteq> Exit) rest = []"
      by (auto intro: takeWhile_eq_all_conv [THEN iffD2])
    from mainMenu_browse [OF clean(1) st c(2-4)]
    have "fst (fst (mainMenu rest w')) = None"
      and "snd (fst (mainMenu rest w')) = map (\<lambda>a. (a, listed a m)) rest"
      and "files (snd (mainMenu rest w')) = files w"
      by (simp_all add: tw dw same)
    then have "fst (mainMenu (FetchNewData # rest) w) =
        (None, (FetchNewData, []) # map (\<lambda>a. (a, listed a m)) rest) \<and>
      files (snd (mainMenu (FetchNewData # rest) w)) = files w"
      by (auto simp: step split: prod.splits)
    then show ?thesis
      by (simp add: program_unfold [OF assms] main_def)
  qed
  have off: "fst (fetchEsportsData ''/matches/upcoming'' False w) = Inl TypeError \<and>
      fst (fetchEsportsData_reduced ''/matches/upcoming'' False w) = Inl TypeError"
    if "answer ''/matches/upcoming'' w = Rejected"
    using that by (simp add: fetchEsportsData_rejected fetchEsportsData_reduced_rejected)
  have off_first: "fst (program script w) = Uncaught TypeError \<and>
      fst (program_reduced script w) = Uncaught TypeError"
    if "answer ''/matches/upcoming'' w = Rejected"
      "files w (snapshotFile ''/matches/upcoming'') = None"
    using mainMenu_first_fetch_rejected [OF that(2) that(1), of script]
    by (simp add: program_unfold [OF assms])
  have off_later: "fst (program (FetchNewData # rest) w) = Uncaught TypeError \<and>
      files (snd (program (FetchNewData # rest) w)) = files w"
    if a: "answer ''/matches/upcoming'' w = Rejected"
      and c: "stored ''/matches/upcoming'' w = Some s" "data s = Some m" "\<not> falsy m"
        "\<not> length_is_zero m"
      and o: "\<not> number_less (elapsedMinutes (elapse (elapse (elapse (elapse w))))
        (lastFetched s)) 10"
    using mainMenu_refresh_rejected [OF c o a, of rest]
    by (simp add: program_unfold [OF assms])
  from bad bad_first bad_later off off_first off_later show ?thesis by blast
qed

theorem failed_fetch_in_session_witness:
  "fst (program [FetchNewData, ViewAllMatches]
          (sample_world (Some old_snapshot) 1704153600000 5 error_reply)) = Finished \<and>
   fst (main [FetchNewData, ViewAllMatches]
          (sample_world (Some old_snapshot) 1704153600000 5 error_reply)) =
     (None, [(FetchNewData, []), (ViewAllMatches, as_matches old_payload)]) \<and>
   fst (program [FetchNewData, ViewAllMatches]
          (sample_world (Some old_snapshot) 1704153600000 5 Rejected)) = Uncaught TypeError \<and>
   fst (program_reduced [ViewAllMatches]
          (sample_world None 1704153600000 5 Rejected)) = Uncaught TypeError"
proof -
  let ?bad = "sample_world (Some old_snapshot) 1704153600000 5 error_reply"
  let ?off = "sample_world (Some old_snapshot) 1704153600000 5 Rejected"
  let ?none = "sample_world None 1704153600000 5 Rejected"
  let ?s = "\<lparr>lastFetched = Some (JStr ''2024-01-01T00:00:00.000Z''), data = Some old_payload\<rparr>"
  let ?r = "\<lparr>resp_status = 503, resp_statusText = ''Service Unavailable'',
           resp_body = NotJson ''unavailable''\<rparr>"
  have token: "API_TOKEN ?bad \<noteq> []" "API_TOKEN ?off \<noteq> []" "API_TOKEN ?none \<noteq> []"
    by (simp_all add: sample_world_fields)
  have a: "answer ''/matches/upcoming'' ?bad = Resolved ?r \<and> \<not> ok ?r"
    by (simp add: answer_sample error_reply_def not_ok_503)
  have c: "stored ''/matches/upcoming'' ?bad = Some ?s \<and> data ?s = Some old_payload \<and>
      is_matches old_payload \<and> \<not> falsy old_payload \<and> \<not> length_is_zero old_payload \<and>
      \<not> number_less (elapsedMinutes (elapse (elapse (elapse (elapse ?bad)))) (lastFetched ?s)) 10 \<and>
      FetchNewData \<notin> set [ViewAllMatches] \<and> Exit \<notin> set [ViewAllMatches]"
    by (simp add: stored_old_snapshot old_payload_shown old_payload_typed day_old_is_stale)
  have c': "stored ''/matches/upcoming'' ?off = Some ?s \<and> data ?s = Some old_payload \<and>
      \<not> falsy old_payload \<and> \<not> length_is_zero old_payload \<and>
      \<not> number_less (elapsedMinutes (elapse (elapse (elapse (elapse ?off)))) (lastFetched ?s)) 10"
    by (simp add: stored_old_snapshot old_payload_shown day_old_is_stale)
  have n: "files ?none (snapshotFile ''/matches/upcoming'') = None"
    by (simp add: sample_world_fields snapshotFile_upcoming)
  from failed_fetch_in_session [OF token(1), where r = ?r and s = ?s and m = old_payload
      and rest = "[ViewAllMatches]", THEN conjunct1] a c
  have 1: "fst (program [FetchNewData, ViewAllMatches] ?bad) = Finished \<and>
      fst (main [FetchNewData, ViewAllMatches] ?bad) =
        (None, [(FetchNewData, []), (ViewAllMatches, as_matches old_payload)])"
    by simp
  from failed_fetch_in_session [OF token(2), where s = ?s and m = old_payload
      and rest = "[ViewAllMatches]", THEN conjunct2] c'
  have 2: "fst (program [FetchNewData, ViewAllMatches] ?off) = Uncaught TypeError"
    by (simp add: answer_sample)
  from failed_fetch_in_session [OF token(3), where script = "[ViewAllMatches]", THEN conjunct2] n
  have 3: "fst (program_reduced [ViewAllMatches] ?none) = Uncaught TypeError"
    by (simp add: answer_sample)
  from 1 2 3 show ?thesis by blast
qed

text \<open>
  C9 as stated does not hold for a transport failure: a session with a cached snapshot
  that chooses Fetch New Data while the request is rejected ends with an uncaught
  \<open>TypeError\<close>, before the actions that follow are served.
\<close>

theorem transport_failure_ends_the_process:
  "fst (program [FetchNewData, ViewAllMatches, Exit]
          (sample_world (Some old_snapshot) 1704153600000 5 Rejected)) = Uncaught TypeError"
proof -
  let ?off = "sample_world (Some old_snapshot) 1704153600000 5 Rejected"
  let ?s = "\<lparr>lastFetched = Some (JStr ''2024-01-01T00:00:00.000Z''), data = Some old_payload\<rparr>"
  have token: "API_TOKEN ?off \<noteq> []" by (simp add: sample_world_fields)
  have st: "stored ''/matches/upcoming'' ?off = Some ?s" by (rule stored_old_snapshot)
  have d: "data ?s = Some old_payload" by simp
  have a: "answer ''/matches/upcoming'' ?off = Rejected" by (rule answer_sample)
  have o: "\<not> number_less
      (elapsedMinutes (elapse (elapse (elapse (elapse ?off)))) (lastFetched ?s)) 10"
    by (simp add: day_old_is_stale)
  from mainMenu_refresh_rejected [OF st d old_payload_shown o a]
  show ?thesis by (simp add: program_unfold [OF token])
qed

section \<open>Properties of the filters\<close>

lemma String_includes_sublist: "String_includes s q = sublist q s"
  by (induction s) (auto simp: sublist_Cons_right)

lemma String_includes_empty: "String_includes s []"
  by (cases s) simp_all

text \<open>
  \<open>toLowerCase\<close> against the table of letters: every code unit is checked, and the two
  columns of the table have no letter twice and none in common.
\<close>

lemma lower_char_table_enum:
  "list_all (\<lambda>c. lower_char c =
      (case map_of (zip capital_letters small_letters) c of None \<Rightarrow> c | Some l \<Rightarrow> l))
     (enum_class.enum :: char list)"
  by code_simp

lemma lower_char_table:
  "lower_char c = (case map_of (zip capital_letters small_letters) c of None \<Rightarrow> c | Some l \<Rightarrow> l)"
  using lower_char_table_enum by (simp add: list_all_iff enum_UNIV)

lemma distinct_capital: "distinct capital_letters"
  by code_simp

lemma distinct_small: "distinct small_letters"
  by code_simp

lemma capital_not_small: "list_all (\<lambda>c. c \<notin> set capital_letters) small_letters"
  by code_simp

lemma length_letters: "length capital_letters = length small_letters"
  by code_simp

lemma zip_letters_iff:
  "(a, b) \<in> set (zip capital_letters small_letters) \<longleftrightarrow>
     map_of (zip capital_letters small_letters) a = Some b"
  using distinct_capital length_letters by simp

lemma small_of_capital:
  assumes "map_of (zip capital_letters small_letters) a = Some l"
  shows "map_of (zip capital_letters small_letters) l = None"
proof -
  from assms have "l \<in> set small_letters"
    by (meson in_set_zipE map_of_SomeD)
  with capital_not_small have "l \<notin> set capital_letters"
    by (simp add: list_all_iff)
  then show ?thesis
    using length_letters by (simp add: map_of_eq_None_iff flip: set_map)
qed

lemma capital_of_small_unique:
  assumes "map_of (zip capital_letters small_letters) a = Some l"
    and "map_of (zip capital_letters small_letters) b = Some l"
  shows "a = b"
proof -
  from assms have "(a, l) \<in> set (zip capital_letters small_letters)"
    "(b, l) \<in> set (zip capital_letters small_letters)"
    by (simp_all add: map_of_SomeD)
  then obtain i j where i: "i < length capital_letters" "capital_letters ! i = a" "small_letters ! i = l"
    and j: "j < length capital_letters" "capital_letters ! j = b" "small_letters ! j = l"
    using length_letters by (auto simp: set_zip)
  with distinct_small length_letters have "i = j"
    using nth_eq_iff_index_eq [of small_letters i j] by simp
  with i j show ?thesis by simp
qed

lemma lower_char_eq_iff: "lower_char a = lower_char b \<longleftrightarrow> same_letter a b"
proof (cases "map_of (zip capital_letters small_letters) a")
  case None
  note a = this
  show ?thesis
  proof (cases "map_of (zip capital_letters small_letters) b")
    case None
    with a show ?thesis by (auto simp: lower_char_table same_letter_def zip_letters_iff)
  next
    case (Some l)
    with a show ?thesis by (auto simp: lower_char_table same_letter_def zip_letters_iff)
  qed
next
  case (Some k)
  note a = this
  show ?thesis
  proof (cases "map_of (zip capital_letters small_letters) b")
    case None
    with a show ?thesis by (auto simp: lower_char_table same_letter_def zip_letters_iff)
  next
    case (Some l)
    with a small_of_capital [OF a] small_of_capital [OF Some] capital_of_small_unique [of a k b]
    show ?thesis by (auto simp: lower_char_table same_letter_def zip_letters_iff)
  qed
qed

lemma toLowerCase_eq_iff:
  "toLowerCase s = toLowerCase t \<longleftrightarrow> equal_ignoring_case s t"
proof -
  have "same_letter = (\<lambda>a b. lower_char a = lower_char b)"
    by (intro ext) (simp add: lower_char_eq_iff)
  then have "equal_ignoring_case s t = list_all2 (\<lambda>a b. lower_char a = lower_char b) s t"
    by (simp add: equal_ignoring_case_def)
  also have "\<dots> \<longleftrightarrow> map lower_char s = map lower_char t"
    by (induction s arbitrary: t) (auto simp: list_all2_Cons1)
  finally show ?thesis by (simp add: toLowerCase_def)
qed

lemma sublist_map_iff:
  "sublist xs (map f ys) \<longleftrightarrow> (\<exists>zs. sublist zs ys \<and> xs = map f zs)"
proof
  assume "sublist xs (map f ys)"
  then obtain ps ss where "map f ys = ps @ xs @ ss" by (auto simp: sublist_def)
  then have "xs = take (length xs) (drop (length ps) (map f ys))" by simp
  then have "xs = map f (take (length xs) (drop (length ps) ys))"
    by (simp add: take_map drop_map)
  moreover have "sublist (take (length xs) (drop (length ps) ys)) ys"
    by (meson sublist_take sublist_drop sublist_order.order_trans)
  ultimately show "\<exists>zs. sublist zs ys \<and> xs = map f zs" by blast
next
  assume "\<exists>zs. sublist zs ys \<and> xs = map f zs"
  then show "sublist xs (map f ys)" by (auto simp: sublist_def) blast
qed

lemma includes_ignoring_case:
  "String_includes (toLowerCase s) (toLowerCase q) \<longleftrightarrow> contains_ignoring_case s q"
  unfolding String_includes_sublist contains_ignoring_case_def
  by (simp add: toLowerCase_def sublist_map_iff) (metis toLowerCase_def toLowerCase_eq_iff)







text \<open>What each filter keeps, said without \<open>toLowerCase\<close> and \<open>includes\<close>.\<close>

lemma filterByGame_keeps:
  "filterByGame xs game = filter (\<lambda>m. equal_ignoring_case (name (videogame m)) game) xs"
  by (simp add: filterByGame_def toLowerCase_eq_iff)

lemma filterByLeague_keeps:
  "filterByLeague xs lg = filter (\<lambda>m. contains_ignoring_case (name (league m)) lg) xs"
  by (simp add: filterByLeague_def includes_ignoring_case)

lemma searchMatches_keeps:
  "searchMatches xs query = filter (\<lambda>m. contains_ignoring_case (match_name m) query) xs"
  by (simp add: searchMatches_def includes_ignoring_case)


text \<open>\<open>Array.prototype.filter\<close> on a heap: the heap before, and one more array.\<close>

lemma Array_filter_steps:
  assumes "receiver < length h" "n \<le> length (h ! receiver)"
  shows "fold (\<lambda>k h'. let kValue = h' ! receiver ! k
                       in if callbackfn kValue then h'[length h := h' ! length h @ [kValue]] else h')
           [0..<n] (h @ [Nil]) =
         h @ [filter callbackfn (take n (h ! receiver))]"
  using assms(2)
proof (induction n)
  case 0
  show ?case by simp
next
  case (Suc n)
  then have n: "n < length (h ! receiver)" and ih: "fold (\<lambda>k h'. let kValue = h' ! receiver ! k
                       in if callbackfn kValue then h'[length h := h' ! length h @ [kValue]] else h')
           [0..<n] (h @ [Nil]) =
         h @ [filter callbackfn (take n (h ! receiver))]" by simp_all
  from n have "take (Suc n) (h ! receiver) = take n (h ! receiver) @ [h ! receiver ! n]"
    by (simp add: take_Suc_conv_app_nth)
  with assms(1) ih show ?case
    by (simp add: nth_append Let_def)
qed

lemma Array_filter_result:
  assumes "receiver < length h"
  shows "Array_filter callbackfn receiver h = (length h, h @ [filter callbackfn (h ! receiver)])"
  using Array_filter_steps [OF assms order_refl, of callbackfn]
  by (simp add: Array_filter_def Let_def)

lemma pure_call_Array_filter:
  assumes "matches < length h"
  shows "pure_call h matches (Array_filter callbackfn matches h) (filter callbackfn (h ! matches))"
  using assms by (simp add: Array_filter_result pure_call_def nth_append)

lemma sample_search:
  "searchMatches (sample_heap ! 0) ''semi'' =
     [sample_Match 1 ''Semifinal A'' ''live'' ''Counter-Strike'' ''Champions Tour'',
      sample_Match 3 ''Grand Semifinal'' ''live'' ''counter-strike'' ''Champions League'']"
  by code_simp

lemma sample_live:
  "filterLiveMatches (sample_heap ! 0) =
     [sample_Match 1 ''Semifinal A'' ''live'' ''Counter-Strike'' ''Champions Tour'',
      sample_Match 3 ''Grand Semifinal'' ''live'' ''counter-strike'' ''Champions League'']"
  by code_simp

lemma sample_game:
  "filterByGame (sample_heap ! 0) ''Counter-Strike'' =
     [sample_Match 1 ''Semifinal A'' ''live'' ''Counter-Strike'' ''Champions Tour'',
      sample_Match 3 ''Grand Semifinal'' ''live'' ''counter-strike'' ''Champions League'']"
  by code_simp

lemma sample_league:
  "filterByLeague (sample_heap ! 0) ''MASTER'' =
     [sample_Match 2 ''Quarterfinal B'' ''finished'' ''Valorant'' ''Masters'']"
  by code_simp

text \<open>
  C7. Each of the four filters is pure. Called with a valid reference to the array of
  matches, it leaves every array of the heap as it was, the array it is given among them;
  the reference it returns is a new one, no array of the heap before the call had it; and
  the array at that reference is a subsequence of the array it was given, the retained
  matches in their original relative order. What is retained is exactly the matches the
  filter is for: those whose game equals the query ignoring case, those whose league
  contains the query ignoring case, those whose status is \<open>live\<close>, and those whose name
  contains the query ignoring case.
\<close>

theorem filters_are_pure:
  assumes "matches < length h"
  shows "pure_call h matches (filterByGame_heap matches game h)
           (filter (\<lambda>m. equal_ignoring_case (name (videogame m)) game) (h ! matches)) \<and>
         pure_call h matches (filterByLeague_heap matches lg h)
           (filter (\<lambda>m. contains_ignoring_case (name (league m)) lg) (h ! matches)) \<and>
         pure_call h matches (filterLiveMatches_heap matches h)
           (filter (\<lambda>m. status m = ''live'') (h ! matches)) \<and>
         pure_call h matches (searchMatches_heap matches query h)
           (filter (\<lambda>m. contains_ignoring_case (match_name m) query) (h ! matches)) \<and>
         snd (filterByGame_heap matches game h) ! fst (filterByGame_heap matches game h) =
           filterByGame (h ! matches) game \<and>
         snd (filterByLeague_heap matches lg h) ! fst (filterByLeague_heap matches lg h) =
           filterByLeague (h ! matches) lg \<and>
         snd (filterLiveMatches_heap matches h) ! fst (filterLiveMatches_heap matches h) =
           filterLiveMatches (h ! matches) \<and>
         snd (searchMatches_heap matches query h) ! fst (searchMatches_heap matches query h) =
           searchMatches (h ! matches) query"
proof -
  note call = pure_call_Array_filter [OF assms]
  have game: "pure_call h matches (filterByGame_heap matches game h)
      (filter (\<lambda>m. equal_ignoring_case (name (videogame m)) game) (h ! matches))"
    using call [of "\<lambda>m. toLowerCase (name (videogame m)) = toLowerCase game"]
    by (simp add: filterByGame_heap_def toLowerCase_eq_iff)
  have league: "pure_call h matches (filterByLeague_heap matches lg h)
      (filter (\<lambda>m. contains_ignoring_case (name (league m)) lg) (h ! matches))"
    using call [of "\<lambda>m. String_includes (toLowerCase (name (league m))) (toLowerCase lg)"]
    by (simp add: filterByLeague_heap_def includes_ignoring_case)
  have live: "pure_call h matches (filterLiveMatches_heap matches h)
      (filter (\<lambda>m. status m = ''live'') (h ! matches))"
    using call [of "\<lambda>m. status m = ''live''"]
    by (simp add: filterLiveMatches_heap_def)
  have search: "pure_call h matches (searchMatches_heap matches query h)
      (filter (\<lambda>m. contains_ignoring_case (match_name m) query) (h ! matches))"
    using call [of "\<lambda>m. String_includes (toLowerCase (match_name m)) (toLowerCase query)"]
    by (simp add: searchMatches_heap_def includes_ignoring_case)
  have "snd (filterByGame_heap matches game h) ! fst (filterByGame_heap matches game h) =
      filterByGame (h ! matches) game"
    using assms by (simp add: filterByGame_heap_def filterByGame_def Array_filter_result)
  moreover have "snd (filterByLeague_heap matches lg h) ! fst (filterByLeague_heap matches lg h) =
      filterByLeague (h ! matches) lg"
    using assms by (simp add: filterByLeague_heap_def filterByLeague_def Array_filter_result)
  moreover have "snd (filterLiveMatches_heap matches h) ! fst (filterLiveMatches_heap matches h) =
      filterLiveMatches (h ! matches)"
    using assms by (simp add: filterLiveMatches_heap_def filterLiveMatches_def Array_filter_result)
  moreover have "snd (searchMatches_heap matches query h) ! fst (searchMatches_heap matches query h) =
      searchMatches (h ! matches) query"
    using assms by (simp add: searchMatches_heap_def searchMatches_def Array_filter_result)
  ultimately show ?thesis using game league live search by blast
qed

theorem filters_are_pure_witness:
  "snd (searchMatches_heap 0 ''semi'' sample_heap) ! 0 = sample_heap ! 0 \<and>
   length sample_heap \<le> fst (searchMatches_heap 0 ''semi'' sample_heap) \<and>
   snd (searchMatches_heap 0 ''semi'' sample_heap) ! fst (searchMatches_heap 0 ''semi'' sample_heap) =
     [sample_Match 1 ''Semifinal A'' ''live'' ''Counter-Strike'' ''Champions Tour'',
      sample_Match 3 ''Grand Semifinal'' ''live'' ''counter-strike'' ''Champions League''] \<and>
   snd (filterLiveMatches_heap 0 sample_heap) ! fst (filterLiveMatches_heap 0 sample_heap) =
     [sample_Match 1 ''Semifinal A'' ''live'' ''Counter-Strike'' ''Champions Tour'',
      sample_Match 3 ''Grand Semifinal'' ''live'' ''counter-strike'' ''Champions League''] \<and>
   snd (filterByGame_heap 0 ''Counter-Strike'' sample_heap) !
       fst (filterByGame_heap 0 ''Counter-Strike'' sample_heap) =
     [sample_Match 1 ''Semifinal A'' ''live'' ''Counter-Strike'' ''Champions Tour'',
      sample_Match 3 ''Grand Semifinal'' ''live'' ''counter-strike'' ''Champions League''] \<and>
   snd (filterByLeague_heap 0 ''MASTER'' sample_heap) !
       fst (filterByLeague_heap 0 ''MASTER'' sample_heap) =
     [sample_Match 2 ''Quarterfinal B'' ''finished'' ''Valorant'' ''Masters'']"
proof -
  have valid: "0 < length sample_heap" by (simp add: sample_heap_def)
  note all = filters_are_pure [OF valid, of "''Counter-Strike''" "''MASTER''" "''semi''"]
  from all have "pure_call sample_heap 0 (searchMatches_heap 0 ''semi'' sample_heap)
      (filter (\<lambda>m. contains_ignoring_case (match_name m) ''semi'') (sample_heap ! 0))"
    by blast
  then have frame: "snd (searchMatches_heap 0 ''semi'' sample_heap) ! 0 = sample_heap ! 0"
    "length sample_heap \<le> fst (searchMatches_heap 0 ''semi'' sample_heap)"
    by (simp_all add: pure_call_def)
  from all have "snd (searchMatches_heap 0 ''semi'' sample_heap) !
        fst (searchMatches_heap 0 ''semi'' sample_heap) = searchMatches (sample_heap ! 0) ''semi''"
    and "snd (filterLiveMatches_heap 0 sample_heap) ! fst (filterLiveMatches_heap 0 sample_heap) =
        filterLiveMatches (sample_heap ! 0)"
    and "snd (filterByGame_heap 0 ''Counter-Strike'' sample_heap) !
        fst (filterByGame_heap 0 ''Counter-Strike'' sample_heap) =
        filterByGame (sample_heap ! 0) ''Counter-Strike''"
    and "snd (filterByLeague_heap 0 ''MASTER'' sample_heap) !
        fst (filterByLeague_heap 0 ''MASTER'' sample_heap) =
        filterByLeague (sample_heap ! 0) ''MASTER''"
    by blast+
  with frame show ?thesis
    by (simp only: sample_search sample_live sample_game sample_league)
qed

text \<open>
  C10. With the empty string as query, \<open>searchMatches\<close> and \<open>filterByLeague\<close> return
  the whole input sequence: the empty string occurs in every name.
\<close>

theorem empty_query_is_identity:
  "searchMatches matches [] = matches \<and> filterByLeague matches [] = matches"
  by (simp add: searchMatches_def filterByLeague_def toLowerCase_def String_includes_empty)

end
